theory Spec2Isabelle
  imports Complex_Main "HOL-Library.Word"
begin

section \<open>Data model of \<open>map_processor.py\<close>\<close>

text \<open>
  Python integers are unbounded and are modelled as \<open>int\<close>; Python's \<open>//\<close> with a
  positive divisor is \<open>div\<close> on \<open>int\<close> (both round towards minus infinity).
  Coordinates of a \<open>QgsRectangle\<close> are C doubles; they are modelled as \<open>real\<close>, so
  every statement below about extents is about exact arithmetic.
\<close>

text \<open>
  Modelled from the spec: the enumeration \<open>ProcessedAreaType\<close> and the class
  \<open>InferenceParameters\<close>, which \<open>map_processor.py\<close> imports from
  \<open>common/inference_parameters.py\<close>, a file that is not among the sources. The spec names
  the modes \<open>ENTIRE_LAYER\<close>, \<open>FROM_POLYGONS\<close> and \<open>VISIBLE_PART\<close>, which are also the three
  the module compares with; \<open>OTHER_AREA_TYPE\<close> stands for any other value. The record holds
  the attributes that \<open>map_processor.py\<close> reads from the parameters; the spec has
  \<open>stride = tile_size_px - overlap_px\<close>, the module reads \<open>processing_stride_px\<close> and
  \<open>processing_overlap_px\<close> separately, so both are fields.
\<close>

datatype ProcessedAreaType = VISIBLE_PART | ENTIRE_LAYER | FROM_POLYGONS | OTHER_AREA_TYPE

record InferenceParameters =
  tile_size_px :: int
  processing_stride_px :: int
  processing_overlap_px :: int
  resolution_m_per_px :: real
  processed_area_type :: ProcessedAreaType
  mask_layer_name :: "string option"
  postprocessing_dilate_erode_size :: int

record QgsRectangle =
  xMinimum :: real
  yMinimum :: real
  xMaximum :: real
  yMaximum :: real

definition width :: "QgsRectangle \<Rightarrow> real" where
  "width r = xMaximum r - xMinimum r"

definition height :: "QgsRectangle \<Rightarrow> real" where
  "height r = yMaximum r - yMinimum r"

text \<open>A Python slice object \<open>start:stop\<close> (step 1), as \<open>np.s_\<close> builds it.\<close>

record py_slice =
  start :: int
  stop :: int

subsection \<open>\<open>class TileParams\<close>\<close>

record TileParams =
  x_bin_number :: int
  y_bin_number :: int
  x_bins_number :: int
  y_bins_number :: int
  stride_px :: int
  start_pixel_x :: int
  start_pixel_y :: int
  inference_parameters :: InferenceParameters
  rlayer_units_per_pixel :: real
  extent :: QgsRectangle

text \<open>\<open>TileParams._calculate_extent\<close>: the tile's extent in CRS coordinates.\<close>

definition calculate_extent ::
  "InferenceParameters \<Rightarrow> real \<Rightarrow> int \<Rightarrow> int \<Rightarrow> QgsRectangle \<Rightarrow> QgsRectangle" where
  "calculate_extent ip upp spx spy processing_extent =
    (let x_min = xMinimum processing_extent + of_int spx * upp;
         y_max = yMaximum processing_extent - of_int spy * upp;
         y_min = y_max - of_int (tile_size_px ip) * upp
     in processing_extent
          \<lparr> xMinimum := x_min,
            xMaximum := x_min + of_int (tile_size_px ip) * upp,
            yMaximum := y_max,
            yMinimum := y_min \<rparr>)"

text \<open>\<open>TileParams.__init__\<close>.\<close>

definition TileParams_init ::
  "int \<Rightarrow> int \<Rightarrow> int \<Rightarrow> int \<Rightarrow> InferenceParameters \<Rightarrow> real \<Rightarrow> QgsRectangle \<Rightarrow> TileParams" where
  "TileParams_init xb yb xbs ybs ip upp processing_extent =
    \<lparr> x_bin_number = xb,
      y_bin_number = yb,
      x_bins_number = xbs,
      y_bins_number = ybs,
      stride_px = processing_stride_px ip,
      start_pixel_x = xb * processing_stride_px ip,
      start_pixel_y = yb * processing_stride_px ip,
      inference_parameters = ip,
      rlayer_units_per_pixel = upp,
      extent = calculate_extent ip upp (xb * processing_stride_px ip)
                 (yb * processing_stride_px ip) processing_extent \<rparr>"

text \<open>
  \<open>TileParams.get_slice_on_full_image_for_copying\<close>. The result is the pair
  \<open>np.s_[y_min:y_max + 1, x_min:x_max + 1]\<close>: the slice of rows, then the slice of columns.
\<close>

definition get_slice_on_full_image_for_copying :: "TileParams \<Rightarrow> py_slice \<times> py_slice" where
  "get_slice_on_full_image_for_copying tp =
    (let half_overlap = (tile_size_px (inference_parameters tp) - stride_px tp) div 2;
         x_min = start_pixel_x tp + half_overlap;
         x_max = start_pixel_x tp + tile_size_px (inference_parameters tp) - half_overlap - 1;
         y_min = start_pixel_y tp + half_overlap;
         y_max = start_pixel_y tp + tile_size_px (inference_parameters tp) - half_overlap - 1;
         x_min = (if x_bin_number tp = 0 then x_min - half_overlap else x_min);
         y_min = (if y_bin_number tp = 0 then y_min - half_overlap else y_min);
         x_max = (if x_bin_number tp = x_bins_number tp - 1 then x_max + half_overlap else x_max);
         y_max = (if y_bin_number tp = y_bins_number tp - 1 then y_max + half_overlap else y_max)
     in (\<lparr> start = y_min, stop = y_max + 1 \<rparr>, \<lparr> start = x_min, stop = x_max + 1 \<rparr>))"

text \<open>
  \<open>TileParams.get_slice_on_tile_image_for_copying\<close>, called with the slice on the full
  image as \<open>_set_mask_on_full_img\<close> does (a pair of slices is truthy, so the default is
  not recomputed).
\<close>

definition get_slice_on_tile_image_for_copying ::
  "TileParams \<Rightarrow> py_slice \<times> py_slice \<Rightarrow> py_slice \<times> py_slice" where
  "get_slice_on_tile_image_for_copying tp r =
    (\<lparr> start = start (fst r) - start_pixel_y tp, stop = stop (fst r) - start_pixel_y tp \<rparr>,
     \<lparr> start = start (snd r) - start_pixel_x tp, stop = stop (snd r) - start_pixel_x tp \<rparr>)"

text \<open>
  The pixels a pair of slices names: rows \<open>start \<le> y < stop\<close>, columns likewise.
  \<open>core_region_full\<close> of tile \<open>(col, row)\<close> in a grid of \<open>xbs \<times> ybs\<close> tiles is the
  rectangle of the slices the tile's \<open>TileParams\<close> computes.
\<close>

definition slice_range :: "py_slice \<Rightarrow> int set" where
  "slice_range s = {start s ..< stop s}"

definition rect_of_slices :: "py_slice \<times> py_slice \<Rightarrow> (int \<times> int) set" where
  "rect_of_slices r = slice_range (fst r) \<times> slice_range (snd r)"

definition core_slices ::
  "InferenceParameters \<Rightarrow> real \<Rightarrow> QgsRectangle \<Rightarrow> int \<Rightarrow> int \<Rightarrow> int \<Rightarrow> int \<Rightarrow> py_slice \<times> py_slice" where
  "core_slices ip upp ext xbs ybs col row =
     get_slice_on_full_image_for_copying (TileParams_init col row xbs ybs ip upp ext)"

definition core_region_full ::
  "InferenceParameters \<Rightarrow> real \<Rightarrow> QgsRectangle \<Rightarrow> int \<Rightarrow> int \<Rightarrow> int \<Rightarrow> int \<Rightarrow> (int \<times> int) set" where
  "core_region_full ip upp ext xbs ybs col row = rect_of_slices (core_slices ip upp ext xbs ybs col row)"

section \<open>Extents: \<open>MapProcessor\<close>'s grid geometry\<close>

text \<open>
  Exceptions are values: a function that can raise returns \<open>py_error + 'a\<close>, with \<open>Inl\<close>
  the exception. \<open>Exception msg\<close> is Python's plain \<open>Exception(msg)\<close>.
\<close>

datatype py_error =
    ZeroDivisionError
  | AssertionError
  | IndexError
  | ValueError
  | Exception string

text \<open>
  Python's \<open>int(x)\<close> on a float truncates towards zero; Python 3's \<open>round(x)\<close> rounds to
  the nearest integer and a tie to the even one.
\<close>

definition py_int :: "real \<Rightarrow> int" where
  "py_int x = (if 0 \<le> x then \<lfloor>x\<rfloor> else \<lceil>x\<rceil>)"

definition py_round :: "real \<Rightarrow> int" where
  "py_round x =
    (let f = \<lfloor>x\<rfloor>; d = x - of_int f
     in if d < 1 / 2 then f
        else if 1 / 2 < d then f + 1
        else if even f then f else f + 1)"

text \<open>
  The QGIS API that the module calls on rectangles, after the QGIS documentation:
  the constructor \<open>QgsRectangle(xMin, yMin, xMax, yMax)\<close> normalises (it swaps a minimum
  that exceeds its maximum), and \<open>intersect\<close> returns the common part of two rectangles,
  or the null rectangle \<open>(0, 0, 0, 0)\<close> when they have none.
\<close>

definition QgsRectangle_init :: "real \<Rightarrow> real \<Rightarrow> real \<Rightarrow> real \<Rightarrow> QgsRectangle" where
  "QgsRectangle_init x0 y0 x1 y1 =
    \<lparr> xMinimum = min x0 x1, yMinimum = min y0 y1, xMaximum = max x0 x1, yMaximum = max y0 y1 \<rparr>"

definition intersects :: "QgsRectangle \<Rightarrow> QgsRectangle \<Rightarrow> bool" where
  "intersects a b =
    (max (xMinimum a) (xMinimum b) \<le> min (xMaximum a) (xMaximum b) \<and>
     max (yMinimum a) (yMinimum b) \<le> min (yMaximum a) (yMaximum b))"

definition intersect :: "QgsRectangle \<Rightarrow> QgsRectangle \<Rightarrow> QgsRectangle" where
  "intersect a b =
    (if intersects a b
     then \<lparr> xMinimum = max (xMinimum a) (xMinimum b), yMinimum = max (yMinimum a) (yMinimum b),
            xMaximum = min (xMaximum a) (xMaximum b), yMaximum = min (yMaximum a) (yMaximum b) \<rparr>
     else \<lparr> xMinimum = 0, yMinimum = 0, xMaximum = 0, yMaximum = 0 \<rparr>)"

text \<open>
  What the module reads from the QGIS objects it is given. A coordinate reference system
  is named by its identifier. Of the mask layer the module uses the bounding box of the
  geometry of feature 0 (\<open>getGeometry(0)\<close>, \<open>convertToSingleType()\<close>, \<open>boundingBox()\<close>)
  and \<open>sourceCrs()\<close>; of the map canvas \<open>extent()\<close> and
  \<open>mapSettings().destinationCrs()\<close>. \<open>mapLayersByName\<close> is
  \<open>QgsProject.instance().mapLayersByName\<close>, and \<open>transform src dst\<close> is the
  \<open>QgsCoordinateTransform\<close> from \<open>src\<close> to \<open>dst\<close> applied to a rectangle.
\<close>

type_synonym crs = string

datatype DistanceUnit = DistanceMeters | DistanceOtherUnit

record QgsRasterLayer =
  rl_extent :: QgsRectangle
  rasterUnitsPerPixelX :: real
  rasterUnitsPerPixelY :: real
  rl_crs :: crs
  mapUnits :: DistanceUnit

record QgsVectorLayer =
  geometry0_boundingBox :: QgsRectangle
  sourceCrs :: crs

record QgsMapCanvas =
  canvas_extent :: QgsRectangle
  destinationCrs :: crs

record qgis_env =
  mapLayersByName :: "string \<Rightarrow> QgsVectorLayer list"
  transform :: "crs \<Rightarrow> crs \<Rightarrow> QgsRectangle \<Rightarrow> QgsRectangle"

text \<open>
  \<open>MapProcessor.round_extent_to_rlayer_grid\<close>. Python's float division raises
  \<open>ZeroDivisionError\<close> on a zero divisor.
\<close>

definition round_extent_to_rlayer_grid :: "QgsRectangle \<Rightarrow> QgsRasterLayer \<Rightarrow> py_error + QgsRectangle" where
  "round_extent_to_rlayer_grid ext rlayer =
    (let grid_spacing = (rasterUnitsPerPixelX rlayer, rasterUnitsPerPixelY rlayer);
         grid_start = (xMinimum (rl_extent rlayer), yMinimum (rl_extent rlayer))
     in if fst grid_spacing = 0 \<or> snd grid_spacing = 0 then Inl ZeroDivisionError
        else
          let x_min = fst grid_start
                + of_int (py_int ((xMinimum ext - fst grid_start) / fst grid_spacing)) * fst grid_spacing;
              x_max = fst grid_start
                + of_int (py_int ((xMaximum ext - fst grid_start) / fst grid_spacing)) * fst grid_spacing;
              y_min = snd grid_start
                + of_int (py_int ((yMinimum ext - snd grid_start) / snd grid_spacing)) * snd grid_spacing;
              y_max = snd grid_start
                + of_int (py_int ((yMaximum ext - snd grid_start) / snd grid_spacing)) * snd grid_spacing
          in Inr (QgsRectangle_init x_min y_min x_max y_max))"

text \<open>
  \<open>MapProcessor._calculate_base_processing_extent_in_rlayer_crs\<close>.
  \<open>assert mask_layer_name is not None\<close> raises \<open>AssertionError\<close>;
  \<open>mapLayersByName(mask_layer_name)[0]\<close> raises \<open>IndexError\<close> when no layer has the name.
\<close>

definition calculate_base_processing_extent_in_rlayer_crs ::
  "qgis_env \<Rightarrow> QgsRasterLayer \<Rightarrow> InferenceParameters \<Rightarrow> QgsMapCanvas \<Rightarrow> py_error + QgsRectangle" where
  "calculate_base_processing_extent_in_rlayer_crs env rlayer ip map_canvas =
    (let rlayer_extent = rl_extent rlayer;
         expected_extent =
           (if processed_area_type ip = ENTIRE_LAYER then Inr rlayer_extent
            else if processed_area_type ip = FROM_POLYGONS then
              (case mask_layer_name ip of
                 None \<Rightarrow> Inl AssertionError
               | Some name \<Rightarrow>
                  (case mapLayersByName env name of
                     [] \<Rightarrow> Inl IndexError
                   | active_extent_in_mask_layer_crs # _ \<Rightarrow>
                       Inr (transform env (sourceCrs active_extent_in_mask_layer_crs) (rl_crs rlayer)
                              (geometry0_boundingBox active_extent_in_mask_layer_crs))))
            else if processed_area_type ip = VISIBLE_PART then
              Inr (transform env (destinationCrs map_canvas) (rl_crs rlayer) (canvas_extent map_canvas))
            else Inl (Exception ''Invalid processed are type!''))
     in case expected_extent of
          Inl e \<Rightarrow> Inl e
        | Inr expected_extent \<Rightarrow>
           (case round_extent_to_rlayer_grid expected_extent rlayer of
              Inl e \<Rightarrow> Inl e
            | Inr expected_extent \<Rightarrow> Inr (intersect expected_extent rlayer_extent)))"

text \<open>
  \<open>MapProcessor._calculate_extended_processing_extent\<close>. The arguments after the raster
  layer are \<open>self.stride_px\<close> and \<open>self.rlayer_units_per_pixel\<close>. Python's \<open>%\<close> with a
  positive divisor is \<open>mod\<close> on \<open>int\<close>; \<open>/\<close> and \<open>%\<close> raise \<open>ZeroDivisionError\<close> on zero.
\<close>

definition calculate_extended_processing_extent ::
  "QgsRasterLayer \<Rightarrow> InferenceParameters \<Rightarrow> int \<Rightarrow> real \<Rightarrow> QgsRectangle \<Rightarrow> py_error + QgsRectangle" where
  "calculate_extended_processing_extent rlayer ip self_stride_px upp base_extent =
    (let additional_pixels = processing_overlap_px ip div 2;
         additional_pixels_in_units = of_int additional_pixels * upp;
         tmp_extent = QgsRectangle_init
           (xMinimum base_extent - additional_pixels_in_units)
           (yMinimum base_extent - additional_pixels_in_units)
           (xMaximum base_extent + additional_pixels_in_units)
           (yMaximum base_extent + additional_pixels_in_units);
         tmp_extent = intersect tmp_extent (rl_extent rlayer);
         tile_size = tile_size_px ip;
         stride = self_stride_px
     in if upp = 0 then Inl ZeroDivisionError
        else
          let current_x_pixels = py_round (width tmp_extent / upp)
          in if tile_size < current_x_pixels \<and> stride = 0 then Inl ZeroDivisionError
             else
               let missing_pixels_x =
                     (if current_x_pixels \<le> tile_size then tile_size - current_x_pixels
                      else (stride - (current_x_pixels - tile_size) mod stride) mod stride);
                   current_y_pixels = py_round (height tmp_extent / upp)
               in if tile_size < current_y_pixels \<and> stride = 0 then Inl ZeroDivisionError
                  else
                    let missing_pixels_y =
                          (if current_y_pixels \<le> tile_size then tile_size - current_y_pixels
                           else (stride - (current_y_pixels - tile_size) mod stride) mod stride);
                        missing_pixels_x_in_units = of_int missing_pixels_x * upp;
                        missing_pixels_y_in_units = of_int missing_pixels_y * upp;
                        tmp_extent = tmp_extent \<lparr> xMaximum := xMaximum tmp_extent + missing_pixels_x_in_units \<rparr>;
                        tmp_extent = tmp_extent \<lparr> yMaximum := yMaximum tmp_extent + missing_pixels_y_in_units \<rparr>
                    in Inr tmp_extent)"

text \<open>
  The pixel dimensions of an extent and the number of tiles per axis, as
  \<open>MapProcessor.__init__\<close> computes them (\<open>img_size_x_pixels\<close>, \<open>x_bins_number\<close>):
  \<open>round(extent.width() / units_per_pixel)\<close> and
  \<open>round((img_size - tile_size_px) / stride_px) + 1\<close>.
\<close>

definition img_size_pixels :: "real \<Rightarrow> real \<Rightarrow> int" where
  "img_size_pixels dimension_in_units upp = py_round (dimension_in_units / upp)"

definition bins_number :: "int \<Rightarrow> int \<Rightarrow> int \<Rightarrow> int" where
  "bins_number img_size tile_size stride = py_round (of_int (img_size - tile_size) / of_int stride) + 1"

text \<open>
  The extent that \<open>_calculate_extended_processing_extent\<close> holds in \<open>tmp_extent\<close> before it
  grows it: the base extent padded by half the overlap on every side and clamped to the
  raster's extent.
\<close>

definition padded_clamped_extent ::
  "QgsRasterLayer \<Rightarrow> InferenceParameters \<Rightarrow> real \<Rightarrow> QgsRectangle \<Rightarrow> QgsRectangle" where
  "padded_clamped_extent rlayer ip upp base_extent =
    intersect
      (QgsRectangle_init
         (xMinimum base_extent - of_int (processing_overlap_px ip div 2) * upp)
         (yMinimum base_extent - of_int (processing_overlap_px ip div 2) * upp)
         (xMaximum base_extent + of_int (processing_overlap_px ip div 2) * upp)
         (yMaximum base_extent + of_int (processing_overlap_px ip div 2) * upp))
      (rl_extent rlayer)"

section \<open>numpy arrays and the copy of a tile's core region\<close>

text \<open>
  A two-dimensional numpy array: its shape and its rows. An array built by the functions
  below has \<open>n_rows\<close> rows of \<open>n_cols\<close> elements each. The shape is kept beside the rows
  because numpy decides on it whether an assignment fits, also for an array of no rows.
\<close>

record 'a ndarray2 =
  n_rows :: nat
  n_cols :: nat
  rows2 :: "'a list list"


text \<open>\<open>np.zeros((h, w), np.uint8)\<close>: a negative dimension raises \<open>ValueError\<close>.\<close>

definition np_zeros :: "int \<times> int \<Rightarrow> py_error + 8 word ndarray2" where
  "np_zeros shp =
    (if fst shp < 0 \<or> snd shp < 0 then Inl ValueError
     else Inr \<lparr> n_rows = nat (fst shp), n_cols = nat (snd shp),
                rows2 = replicate (nat (fst shp)) (replicate (nat (snd shp)) 0) \<rparr>)"

text \<open>
  A slice \<open>start:stop\<close> on an axis of length \<open>n\<close>, as Python resolves it: a negative bound
  counts from the end, and both bounds are clipped to \<open>[0, n]\<close>. The result is the first
  index and the number of indices selected.
\<close>

definition clip_index :: "nat \<Rightarrow> int \<Rightarrow> int" where
  "clip_index n k = (if k < 0 then max 0 (k + int n) else min k (int n))"

definition slice_bounds :: "nat \<Rightarrow> py_slice \<Rightarrow> nat \<times> nat" where
  "slice_bounds n s =
    (nat (clip_index n (start s)), nat (clip_index n (stop s) - clip_index n (start s)))"

text \<open>\<open>a[rows_slice, cols_slice]\<close>, read.\<close>

definition np_getitem2 :: "'a ndarray2 \<Rightarrow> py_slice \<times> py_slice \<Rightarrow> 'a ndarray2" where
  "np_getitem2 a sl =
    (let (r0, h) = slice_bounds (n_rows a) (fst sl);
         (c0, w) = slice_bounds (n_cols a) (snd sl)
     in \<lparr> n_rows = h, n_cols = w,
          rows2 = map (\<lambda>row. take w (drop c0 row)) (take h (drop r0 (rows2 a))) \<rparr>)"

text \<open>
  \<open>dst[rows_slice, cols_slice] = src\<close>. numpy first checks that the shape of \<open>src\<close> can be
  broadcast to the shape of the selected block (each dimension equal, or 1 in \<open>src\<close>) and
  raises \<open>ValueError\<close> if not, before it writes anything; otherwise it writes the block.
\<close>

definition np_setitem2 :: "'a ndarray2 \<Rightarrow> py_slice \<times> py_slice \<Rightarrow> 'a ndarray2 \<Rightarrow> py_error + 'a ndarray2" where
  "np_setitem2 dst sl src =
    (let (r0, h) = slice_bounds (n_rows dst) (fst sl);
         (c0, w) = slice_bounds (n_cols dst) (snd sl)
     in if (n_rows src = h \<or> n_rows src = 1) \<and> (n_cols src = w \<or> n_cols src = 1)
        then Inr (dst \<lparr> rows2 :=
               map (\<lambda>i. if r0 \<le> i \<and> i < r0 + h
                         then map (\<lambda>j. if c0 \<le> j \<and> j < c0 + w
                                        then rows2 src ! (if n_rows src = 1 then 0 else i - r0)
                                                       ! (if n_cols src = 1 then 0 else j - c0)
                                        else rows2 dst ! i ! j)
                                  [0 ..< n_cols dst]
                         else rows2 dst ! i)
                   [0 ..< n_rows dst] \<rparr>)
        else Inl ValueError)"

text \<open>
  \<open>MapProcessor._set_mask_on_full_img\<close>. The method mutates \<open>full_result_img\<close> in place;
  the model returns the exception the call raised, if any, and the content of
  \<open>full_result_img\<close> after the call.
\<close>

definition set_mask_on_full_img ::
  "'a ndarray2 \<Rightarrow> 'a ndarray2 \<Rightarrow> TileParams \<Rightarrow> py_error option \<times> 'a ndarray2" where
  "set_mask_on_full_img full_result_img tile_result tile_params =
    (let roi_slice_on_full_image = get_slice_on_full_image_for_copying tile_params;
         roi_slice_on_tile_image =
           get_slice_on_tile_image_for_copying tile_params roi_slice_on_full_image
     in case np_setitem2 full_result_img roi_slice_on_full_image
               (np_getitem2 tile_result roi_slice_on_tile_image) of
          Inl e \<Rightarrow> (Some e, full_result_img)
        | Inr img \<Rightarrow> (None, img))"

section \<open>The stitching loop: \<open>MapProcessor._process\<close>\<close>

text \<open>
  The attributes of a \<open>MapProcessor\<close> that \<open>_process\<close> reads (\<open>mp_\<close> marks a name that
  \<open>TileParams\<close> has too).
\<close>

record MapProcessor =
  mp_rlayer :: QgsRasterLayer
  mp_inference_parameters :: InferenceParameters
  mp_stride_px :: int
  mp_rlayer_units_per_pixel :: real
  base_extent :: QgsRectangle
  extended_extent :: QgsRectangle
  img_size_x_pixels :: int
  img_size_y_pixels :: int
  mp_x_bins_number :: int
  mp_y_bins_number :: int

text \<open>
  \<open>MapProcessor.convert_meters_to_rlayer_units\<close> and \<open>MapProcessor.__init__\<close>. The
  constructor's last statement loads the ONNX model (\<open>ModelWrapper\<close>), which is outside
  this model.
\<close>

definition convert_meters_to_rlayer_units :: "QgsRasterLayer \<Rightarrow> real \<Rightarrow> py_error + real" where
  "convert_meters_to_rlayer_units rlayer distance_m =
    (if mapUnits rlayer \<noteq> DistanceMeters then Inl (Exception ''Unsupported layer units'')
     else Inr distance_m)"

definition MapProcessor_init ::
  "qgis_env \<Rightarrow> QgsRasterLayer \<Rightarrow> QgsMapCanvas \<Rightarrow> InferenceParameters \<Rightarrow> py_error + MapProcessor" where
  "MapProcessor_init env rlayer map_canvas ip =
    (let stride = processing_stride_px ip
     in case convert_meters_to_rlayer_units rlayer (resolution_m_per_px ip) of
          Inl e \<Rightarrow> Inl e
        | Inr upp \<Rightarrow>
           (case calculate_base_processing_extent_in_rlayer_crs env rlayer ip map_canvas of
              Inl e \<Rightarrow> Inl e
            | Inr base \<Rightarrow>
               (case calculate_extended_processing_extent rlayer ip stride upp base of
                  Inl e \<Rightarrow> Inl e
                | Inr extended \<Rightarrow>
                   if stride = 0 then Inl ZeroDivisionError
                   else
                     let size_x = img_size_pixels (width extended) upp;
                         size_y = img_size_pixels (height extended) upp
                     in Inr \<lparr> mp_rlayer = rlayer,
                              mp_inference_parameters = ip,
                              mp_stride_px = stride,
                              mp_rlayer_units_per_pixel = upp,
                              base_extent = base,
                              extended_extent = extended,
                              img_size_x_pixels = size_x,
                              img_size_y_pixels = size_y,
                              mp_x_bins_number = bins_number size_x (tile_size_px ip) stride,
                              mp_y_bins_number = bins_number size_y (tile_size_px ip) stride \<rparr>)))"

text \<open>
  What \<open>_process\<close> calls outside the module's arithmetic:
  \<^item> \<open>isCanceled k\<close>: the answer of the \<open>k\<close>-th call (counted from 0) of \<open>self.isCanceled()\<close>,
    a flag another thread sets;
  \<^item> \<open>get_image\<close>: \<open>self._get_image\<close> for this layer and these parameters, a read of the
    raster through the data provider;
  \<^item> \<open>process_tile\<close>: the per-tile predictor, \<open>self._process_tile\<close> in the source;
  \<^item> \<open>morphologyEx_open_close size\<close>: \<open>cv2.morphologyEx\<close> with \<open>MORPH_OPEN\<close>, then with
    \<open>MORPH_CLOSE\<close>, for a square kernel of the given side;
  \<^item> \<open>create_vlayer_from_mask\<close>: \<open>self._create_vlayer_from_mask\<close>, modelled on its own
    below; it returns the exception it raised, if any.
  The calls of \<open>print\<close> are left out.
\<close>

record 'img task_env =
  isCanceled :: "nat \<Rightarrow> bool"
  get_image :: "QgsRectangle \<Rightarrow> py_error + 'img"
  process_tile :: "'img \<Rightarrow> py_error + 8 word ndarray2"
  morphologyEx_open_close :: "int \<Rightarrow> 8 word ndarray2 \<Rightarrow> 8 word ndarray2"
  create_vlayer_from_mask :: "8 word ndarray2 \<Rightarrow> py_error option"

text \<open>
  The calls \<open>_process\<close> makes that are seen from outside, in order: \<open>self.setProgress\<close>
  with its argument, and \<open>self._get_image\<close> with the tile's extent, with which the
  processing of a tile starts.
\<close>

datatype event = SetProgress real | GetImage QgsRectangle

record loop_state =
  full_result_img :: "8 word ndarray2"
  trace :: "event list"
  cancel_checks :: nat

datatype outcome = Returned bool | Raised py_error

text \<open>\<open>range(n)\<close>.\<close>

definition py_range :: "int \<Rightarrow> int list" where
  "py_range n = [0 .. n - 1]"

text \<open>
  The body of the inner loop for tile \<open>(x_bin_number, y_bin_number)\<close>: \<open>Some\<close> outcome when
  the body leaves \<open>_process\<close> (by \<open>return False\<close> or by an exception), \<open>None\<close> when the loop
  goes on.
\<close>

definition tile_body ::
  "'img task_env \<Rightarrow> MapProcessor \<Rightarrow> int \<Rightarrow> loop_state \<Rightarrow> int \<Rightarrow> int \<Rightarrow> outcome option \<times> loop_state" where
  "tile_body env self total_tiles st y_bin x_bin =
    (let canceled = isCanceled env (cancel_checks st);
         st = st \<lparr> cancel_checks := cancel_checks st + 1 \<rparr>
     in if canceled then (Some (Returned False), st)
        else
          let tile_no = y_bin * mp_x_bins_number self + x_bin;
              progress = of_int tile_no / of_int total_tiles * 100;
              st = st \<lparr> trace := trace st @ [SetProgress progress] \<rparr>;
              tile_params = TileParams_init x_bin y_bin (mp_x_bins_number self) (mp_y_bins_number self)
                              (mp_inference_parameters self) (mp_rlayer_units_per_pixel self)
                              (extended_extent self);
              st = st \<lparr> trace := trace st @ [GetImage (extent tile_params)] \<rparr>
          in case get_image env (extent tile_params) of
               Inl e \<Rightarrow> (Some (Raised e), st)
             | Inr tile_img \<Rightarrow>
                (case process_tile env tile_img of
                   Inl e \<Rightarrow> (Some (Raised e), st)
                 | Inr tile_result \<Rightarrow>
                    (case set_mask_on_full_img (full_result_img st) tile_result tile_params of
                       (Some e, img) \<Rightarrow> (Some (Raised e), st \<lparr> full_result_img := img \<rparr>)
                     | (None, img) \<Rightarrow> (None, st \<lparr> full_result_img := img \<rparr>))))"

fun loop_x ::
  "'img task_env \<Rightarrow> MapProcessor \<Rightarrow> int \<Rightarrow> loop_state \<Rightarrow> int \<Rightarrow> int list \<Rightarrow> outcome option \<times> loop_state" where
  "loop_x env self total_tiles st y_bin [] = (None, st)"
| "loop_x env self total_tiles st y_bin (x_bin # xs) =
    (case tile_body env self total_tiles st y_bin x_bin of
       (Some out, st') \<Rightarrow> (Some out, st')
     | (None, st') \<Rightarrow> loop_x env self total_tiles st' y_bin xs)"

fun loop_y ::
  "'img task_env \<Rightarrow> MapProcessor \<Rightarrow> int \<Rightarrow> loop_state \<Rightarrow> int list \<Rightarrow> outcome option \<times> loop_state" where
  "loop_y env self total_tiles st [] = (None, st)"
| "loop_y env self total_tiles st (y_bin # ys) =
    (case loop_x env self total_tiles st y_bin (py_range (mp_x_bins_number self)) of
       (Some out, st') \<Rightarrow> (Some out, st')
     | (None, st') \<Rightarrow> loop_y env self total_tiles st' ys)"

text \<open>\<open>MapProcessor._erode_dilate_image\<close>.\<close>

definition erode_dilate_image :: "'img task_env \<Rightarrow> InferenceParameters \<Rightarrow> 8 word ndarray2 \<Rightarrow> 8 word ndarray2" where
  "erode_dilate_image env ip img =
    (if postprocessing_dilate_erode_size ip \<noteq> 0
     then let size = (postprocessing_dilate_erode_size ip div 2) ^ 2 + 1
          in morphologyEx_open_close env size img
     else img)"

text \<open>
  \<open>MapProcessor._process\<close>. The result is how the call ended (\<open>Returned True\<close>,
  \<open>Returned False\<close> on cancellation, or the exception), the calls it made, and the
  content of \<open>full_result_img\<close> at the end (\<open>None\<close> when \<open>np.zeros\<close> raised).
\<close>

definition process ::
  "'img task_env \<Rightarrow> MapProcessor \<Rightarrow> outcome \<times> event list \<times> 8 word ndarray2 option" where
  "process env self =
    (let total_tiles = mp_x_bins_number self * mp_y_bins_number self;
         final_shape_px = (img_size_y_pixels self, img_size_x_pixels self)
     in case np_zeros final_shape_px of
          Inl e \<Rightarrow> (Raised e, [], None)
        | Inr img \<Rightarrow>
           if total_tiles < 1
           then (Raised (Exception ''TODO! Add support for partial tiles!''), [], Some img)
           else
             (case loop_y env self total_tiles
                     \<lparr> full_result_img = img, trace = [], cancel_checks = 0 \<rparr>
                     (py_range (mp_y_bins_number self)) of
                (Some out, st) \<Rightarrow> (out, trace st, Some (full_result_img st))
              | (None, st) \<Rightarrow>
                 (let img = erode_dilate_image env (mp_inference_parameters self) (full_result_img st)
                  in case create_vlayer_from_mask env img of
                       Some e \<Rightarrow> (Raised e, trace st, Some img)
                     | None \<Rightarrow> (Returned True, trace st, Some img))))"

text \<open>
  The tiles \<open>(y_bin_number, x_bin_number)\<close> in the order of the two loops (\<open>coords_of\<close>
  for the rows \<open>ys\<close>), the source's \<open>tile_no\<close>, the two calls made for a tile, and the
  progress values among the calls made.
\<close>

definition coords_of :: "MapProcessor \<Rightarrow> int list \<Rightarrow> (int \<times> int) list" where
  "coords_of self ys = concat (map (\<lambda>y. map (\<lambda>x. (y, x)) (py_range (mp_x_bins_number self))) ys)"

definition tile_coords :: "MapProcessor \<Rightarrow> (int \<times> int) list" where
  "tile_coords self = coords_of self (py_range (mp_y_bins_number self))"

definition tile_no :: "MapProcessor \<Rightarrow> int \<times> int \<Rightarrow> int" where
  "tile_no self yx = fst yx * mp_x_bins_number self + snd yx"

definition tile_events :: "MapProcessor \<Rightarrow> int \<times> int \<Rightarrow> event list" where
  "tile_events self yx =
    [SetProgress (of_int (fst yx * mp_x_bins_number self + snd yx)
                    / of_int (mp_x_bins_number self * mp_y_bins_number self) * 100),
     GetImage (extent (TileParams_init (snd yx) (fst yx) (mp_x_bins_number self)
                 (mp_y_bins_number self) (mp_inference_parameters self)
                 (mp_rlayer_units_per_pixel self) (extended_extent self)))]"

fun reported :: "event list \<Rightarrow> real list" where
  "reported [] = []"
| "reported (SetProgress p # es) = p # reported es"
| "reported (GetImage e # es) = reported es"

text \<open>
  ``Progress is reported after each tile is processed'', on the calls made: every
  \<open>GetImage\<close> has a \<open>SetProgress\<close> somewhere after it.
\<close>

fun is_SetProgress :: "event \<Rightarrow> bool" where
  "is_SetProgress (SetProgress p) = True"
| "is_SetProgress (GetImage e) = False"

fun progress_after_each_tile :: "event list \<Rightarrow> bool" where
  "progress_after_each_tile [] = True"
| "progress_after_each_tile (SetProgress p # es) = progress_after_each_tile es"
| "progress_after_each_tile (GetImage e # es) = (list_ex is_SetProgress es \<and> progress_after_each_tile es)"

section \<open>Concrete inputs\<close>

text \<open>
  Inputs for the concrete runs below. \<open>grid_params t s\<close> are inference parameters with
  tile size \<open>t\<close> and stride \<open>s\<close>. \<open>unit_raster w h\<close> is a raster layer of \<open>w\<close> by \<open>h\<close> map
  units with pixels of one unit. \<open>small_processor nx ny\<close> is a \<open>MapProcessor\<close> for a grid of
  \<open>nx\<close> by \<open>ny\<close> tiles of 2 by 2 pixels without overlap, at one unit per pixel.
  \<open>const_env cancelled_at img tile_mask\<close> is a task whose cancellation flag is set from the
  check numbered \<open>cancelled_at\<close> on, whose raster read returns \<open>img\<close> for every extent and
  whose predictor returns \<open>tile_mask\<close> for every tile; post-processing and the vector layer
  play no part.
\<close>

definition grid_params :: "int \<Rightarrow> int \<Rightarrow> InferenceParameters" where
  "grid_params t s =
    \<lparr> tile_size_px = t, processing_stride_px = s, processing_overlap_px = t - s,
      resolution_m_per_px = 1, processed_area_type = ENTIRE_LAYER, mask_layer_name = None,
      postprocessing_dilate_erode_size = 0 \<rparr>"

definition unit_raster :: "real \<Rightarrow> real \<Rightarrow> QgsRasterLayer" where
  "unit_raster w h =
    \<lparr> rl_extent = \<lparr> xMinimum = 0, yMinimum = 0, xMaximum = w, yMaximum = h \<rparr>,
      rasterUnitsPerPixelX = 1, rasterUnitsPerPixelY = 1, rl_crs = ''EPSG:32633'',
      mapUnits = DistanceMeters \<rparr>"

definition small_processor :: "int \<Rightarrow> int \<Rightarrow> MapProcessor" where
  "small_processor nx ny =
    \<lparr> mp_rlayer = unit_raster (of_int (2 * nx)) (of_int (2 * ny)),
      mp_inference_parameters = grid_params 2 2,
      mp_stride_px = 2,
      mp_rlayer_units_per_pixel = 1,
      base_extent = \<lparr> xMinimum = 0, yMinimum = 0, xMaximum = of_int (2 * nx), yMaximum = of_int (2 * ny) \<rparr>,
      extended_extent = \<lparr> xMinimum = 0, yMinimum = 0, xMaximum = of_int (2 * nx), yMaximum = of_int (2 * ny) \<rparr>,
      img_size_x_pixels = 2 * nx,
      img_size_y_pixels = 2 * ny,
      mp_x_bins_number = nx,
      mp_y_bins_number = ny \<rparr>"

definition const_env :: "nat \<Rightarrow> 'img \<Rightarrow> 8 word ndarray2 \<Rightarrow> 'img task_env" where
  "const_env cancelled_at img tile_mask =
    \<lparr> isCanceled = (\<lambda>k. cancelled_at \<le> k),
      get_image = (\<lambda>e. Inr img),
      process_tile = (\<lambda>tile_img. Inr tile_mask),
      morphologyEx_open_close = (\<lambda>size img. img),
      create_vlayer_from_mask = (\<lambda>img. None) \<rparr>"

text \<open>
  A project without layers, a project whose only vector layer is named \<open>mask\<close>, and a map
  canvas; all in the raster's coordinate reference system, so the coordinate transform is
  the identity.
\<close>

definition empty_project :: qgis_env where
  "empty_project = \<lparr> mapLayersByName = (\<lambda>name. []), transform = (\<lambda>src dst r. r) \<rparr>"

definition mask_project :: qgis_env where
  "mask_project =
    \<lparr> mapLayersByName =
        (\<lambda>name. if name = ''mask''
                then [\<lparr> geometry0_boundingBox =
                         \<lparr> xMinimum = 1, yMinimum = 1, xMaximum = 3, yMaximum = 3 \<rparr>,
                       sourceCrs = ''EPSG:32633'' \<rparr>]
                else []),
      transform = (\<lambda>src dst r. r) \<rparr>"

definition example_canvas :: QgsMapCanvas where
  "example_canvas =
    \<lparr> canvas_extent = \<lparr> xMinimum = 1, yMinimum = 1, xMaximum = 3, yMaximum = 3 \<rparr>,
      destinationCrs = ''EPSG:32633'' \<rparr>"

definition square :: "nat \<Rightarrow> 'a \<Rightarrow> 'a ndarray2" where
  "square n v = \<lparr> n_rows = n, n_cols = n, rows2 = replicate n (replicate n v) \<rparr>"

section \<open>Vectorisation: contours to polygon features\<close>

text \<open>
  \<open>cv2.findContours\<close> with \<open>RETR_TREE\<close> returns the contours, each a sequence of points,
  and one hierarchy row \<open>[next, previous, first_child, parent]\<close> per contour, where \<open>-1\<close>
  stands for ``none''. A feature is the list of rings that
  \<open>QgsGeometry.fromPolygonXY\<close> is given: the outer ring first, then the holes.
\<close>

record hierarchy_row =
  h_next :: int
  h_previous :: int
  h_first_child :: int
  h_parent :: int

text \<open>
  \<open>xs[i]\<close> in Python: a negative index counts from the end, an index out of range raises
  \<open>IndexError\<close>.
\<close>

definition py_getitem :: "'a list \<Rightarrow> int \<Rightarrow> py_error + 'a" where
  "py_getitem xs i =
    (if 0 \<le> i \<and> i < int (length xs) then Inr (xs ! nat i)
     else if i < 0 \<and> - int (length xs) \<le> i then Inr (xs ! nat (int (length xs) + i))
     else Inl IndexError)"

text \<open>
  \<open>MapProcessor._convert_cv_contours_to_features\<close>. The method appends to the lists
  \<open>features\<close> and \<open>current_holes\<close> it is given; the model takes the two lists and returns
  them as they are after the call. The hierarchy may be any array of rows, so the loop
  along \<open>next\<close> and the recursion into \<open>first_child\<close> need not end: the model takes fuel,
  one unit per pass of the \<open>while\<close> loop, and \<open>None\<close> is ``out of fuel''.
  \<open>convert_cv_contours_to_features\<close> is the method from its entry,
  \<open>convert_loop\<close> the \<open>while True\<close> loop from its top.
\<close>

fun convert_cv_contours_to_features ::
    "nat \<Rightarrow> 'p list list \<Rightarrow> hierarchy_row list \<Rightarrow> int \<Rightarrow> bool \<Rightarrow>
     'p list list list \<times> 'p list list \<Rightarrow> (py_error + 'p list list list \<times> 'p list list) option"
  and convert_loop ::
    "nat \<Rightarrow> 'p list list \<Rightarrow> hierarchy_row list \<Rightarrow> int \<Rightarrow> bool \<Rightarrow>
     'p list list list \<times> 'p list list \<Rightarrow> (py_error + 'p list list list \<times> 'p list list) option"
where
  "convert_cv_contours_to_features fuel cv_contours hierarchy current_contour_index is_hole st =
    (if current_contour_index = - 1 then Some (Inr st)
     else convert_loop fuel cv_contours hierarchy current_contour_index is_hole st)"
| "convert_loop 0 cv_contours hierarchy current_contour_index is_hole st = None"
| "convert_loop (Suc fuel) cv_contours hierarchy current_contour_index is_hole (features, current_holes) =
    (case py_getitem cv_contours current_contour_index of
       Inl e \<Rightarrow> Some (Inl e)
     | Inr contour \<Rightarrow>
        (case (if 3 \<le> length contour
               then (case py_getitem hierarchy current_contour_index of
                       Inl e \<Rightarrow> Some (Inl e)
                     | Inr row \<Rightarrow>
                        (case convert_cv_contours_to_features fuel cv_contours hierarchy
                                (h_first_child row) (\<not> is_hole) (features, []) of
                           None \<Rightarrow> None
                         | Some (Inl e) \<Rightarrow> Some (Inl e)
                         | Some (Inr (features, internal_holes)) \<Rightarrow>
                             if is_hole then Some (Inr (features, current_holes @ [contour]))
                             else Some (Inr (features @ [contour # internal_holes], current_holes))))
               else Some (Inr (features, current_holes))) of
           None \<Rightarrow> None
         | Some (Inl e) \<Rightarrow> Some (Inl e)
         | Some (Inr st) \<Rightarrow>
            (case py_getitem hierarchy current_contour_index of
               Inl e \<Rightarrow> Some (Inl e)
             | Inr row \<Rightarrow>
                 if h_next row = - 1 then Some (Inr st)
                 else convert_loop fuel cv_contours hierarchy (h_next row) is_hole st)))"

text \<open>
  \<open>MapProcessor.transform_contours_yx_pixels_to_target_crs\<close>, on contours whose points are
  pairs \<open>(x, y)\<close> of pixel coordinates (after \<open>squeeze(axis=1)\<close>).
\<close>

definition transform_contours_yx_pixels_to_target_crs ::
  "QgsRectangle \<Rightarrow> real \<Rightarrow> (int \<times> int) list list \<Rightarrow> (real \<times> real) list list" where
  "transform_contours_yx_pixels_to_target_crs ext upp polygons =
    (let x_left = xMinimum ext; y_upper = yMaximum ext
     in map (map (\<lambda>yx_px. (of_int (fst yx_px) * upp + x_left,
                             - (of_int (snd yx_px) * upp - y_upper)))) polygons)"

text \<open>
  The features that \<open>MapProcessor._create_vlayer_from_mask\<close> adds to the new vector
  layer. \<open>findContours\<close> is \<open>cv2.findContours\<close> with \<open>RETR_TREE\<close> and
  \<open>CHAIN_APPROX_SIMPLE\<close>; its second result is \<open>hierarchy[0]\<close>.
\<close>

definition create_vlayer_features ::
  "nat \<Rightarrow> ('m \<Rightarrow> (int \<times> int) list list \<times> hierarchy_row list) \<Rightarrow> QgsRectangle \<Rightarrow> real \<Rightarrow> 'm \<Rightarrow>
   (py_error + (real \<times> real) list list list) option" where
  "create_vlayer_features fuel findContours ext upp mask_img =
    (let (contours, hierarchy) = findContours mask_img;
         contours = transform_contours_yx_pixels_to_target_crs ext upp contours
     in if length contours \<noteq> 0
        then map_option (map_sum id fst)
               (convert_cv_contours_to_features fuel contours hierarchy 0 False ([], []))
        else Some (Inr []))"

text \<open>
  The hierarchy as a forest. A contour with its children, in the order of the \<open>next\<close>
  links, is a tree; \<open>encodes cv h i forest\<close> says that the chain of siblings that starts at
  index \<open>i\<close> of the contour list \<open>cv\<close> and the hierarchy \<open>h\<close> is the forest \<open>forest\<close>: this is
  what a hierarchy array of \<open>findContours\<close> is.
\<close>

datatype 'p ctree = Node "'p list" "'p ctree list"

fun encodes :: "'p list list \<Rightarrow> hierarchy_row list \<Rightarrow> int \<Rightarrow> 'p ctree list \<Rightarrow> bool" where
  "encodes cv h i [] = (i = - 1)"
| "encodes cv h i (Node c kids # rest) =
    (0 \<le> i \<and> i < int (length cv) \<and> i < int (length h) \<and> cv ! nat i = c \<and>
     encodes cv h (h_first_child (h ! nat i)) kids \<and>
     encodes cv h (h_next (h ! nat i)) rest)"

text \<open>
  The claim's words on a forest. \<open>reached is_hole forest\<close> lists the contours the
  traversal reaches, each with its \<open>is_hole\<close> flag (\<open>False\<close> at even depth, \<open>True\<close> at odd
  depth), children before their parent: a contour of fewer than 3 points is skipped with
  all below it. The polygon of a contour has the contour as its outer ring and its
  immediate children of at least 3 points as hole rings. The expected features are the
  polygons of the reached contours that are not holes.
\<close>

fun reached :: "bool \<Rightarrow> 'p ctree list \<Rightarrow> (bool \<times> 'p ctree) list" where
  "reached is_hole [] = []"
| "reached is_hole (Node c kids # rest) =
    (if 3 \<le> length c then reached (\<not> is_hole) kids @ [(is_hole, Node c kids)] else [])
    @ reached is_hole rest"

fun ring :: "'p ctree \<Rightarrow> 'p list" where
  "ring (Node c kids) = c"

fun polygon_of :: "'p ctree \<Rightarrow> 'p list list" where
  "polygon_of (Node c kids) = c # filter (\<lambda>r. 3 \<le> length r) (map ring kids)"

definition expected_features :: "'p ctree list \<Rightarrow> 'p list list list" where
  "expected_features forest =
     map (\<lambda>ht. polygon_of (snd ht)) (filter (\<lambda>ht. \<not> fst ht) (reached False forest))"

section \<open>The per-tile predictor: \<open>MapProcessor._process_tile\<close>\<close>

text \<open>
  \<open>_process_tile\<close> copies its argument, takes a view of the copy and assigns through the
  view, so the model keeps the arrays in a store: a list of buffers, the address of a
  buffer being its index. A buffer is a three-dimensional \<open>uint8\<close> array, rows of pixels
  of channels, with its shape. An array object is a reference into the store: the whole
  buffer (\<open>chan = None\<close>), or the two-dimensional view \<open>a[:, :, k]\<close> of it
  (\<open>chan = Some k\<close>), which shares the buffer. A two-dimensional array that owns its data
  is the view of channel 0 of a buffer of one channel.
\<close>

record 'a ndarray3 =
  dim_y :: nat
  dim_x :: nat
  dim_c :: nat
  px3 :: "'a list list list"

type_synonym store = "8 word ndarray3 list"

record array_ref =
  buf_addr :: nat
  chan :: "nat option"

text \<open>The content of an array object, for a view as the two-dimensional array it shows.\<close>

definition read_view :: "store \<Rightarrow> nat \<Rightarrow> nat \<Rightarrow> 8 word ndarray2" where
  "read_view st a k =
    \<lparr> n_rows = dim_y (st ! a), n_cols = dim_x (st ! a),
      rows2 = map (map (\<lambda>p. p ! k)) (px3 (st ! a)) \<rparr>"

text \<open>
  \<open>copy.copy(a)\<close> of an array: a new array with its own data, at a fresh address.
\<close>

definition copy_copy :: "store \<Rightarrow> array_ref \<Rightarrow> array_ref \<times> store" where
  "copy_copy st r =
    (case chan r of
       None \<Rightarrow> (\<lparr> buf_addr = length st, chan = None \<rparr>, st @ [st ! buf_addr r])
     | Some k \<Rightarrow>
        (\<lparr> buf_addr = length st, chan = Some 0 \<rparr>,
         st @ [(st ! buf_addr r) \<lparr> dim_c := 1, px3 := map (map (\<lambda>p. [p ! k])) (px3 (st ! buf_addr r)) \<rparr>]))"

text \<open>
  \<open>a[:, :, k]\<close>: a view of channel \<open>k\<close>; \<open>IndexError\<close> when the array has no such
  channel or is two-dimensional already.
\<close>

definition getitem_channel :: "store \<Rightarrow> array_ref \<Rightarrow> nat \<Rightarrow> py_error + array_ref" where
  "getitem_channel st r k =
    (case chan r of
       None \<Rightarrow> if k < dim_c (st ! buf_addr r) then Inr (r \<lparr> chan := Some k \<rparr>) else Inl IndexError
     | Some j \<Rightarrow> Inl IndexError)"

text \<open>
  \<open>a[cond(a)] = v\<close>: the boolean mask is computed from \<open>a\<close>, then \<open>v\<close> is written through
  \<open>a\<close> into the buffer it refers to, at the elements where the mask holds.
\<close>

definition setitem_where :: "(8 word \<Rightarrow> bool) \<Rightarrow> 8 word \<Rightarrow> store \<Rightarrow> array_ref \<Rightarrow> store" where
  "setitem_where cond v st r =
    st [buf_addr r := (st ! buf_addr r) \<lparr> px3 :=
         (case chan r of
            None \<Rightarrow> map (map (map (\<lambda>e. if cond e then v else e))) (px3 (st ! buf_addr r))
          | Some k \<Rightarrow> map (map (\<lambda>p. if cond (p ! k) then p [k := v] else p)) (px3 (st ! buf_addr r))) \<rparr>]"

text \<open>
  The body of \<open>_process_tile\<close>, statement by statement. A frame holds the store, the
  local variables \<open>tile_img\<close> and \<open>result\<close>, and the line numbers of the statements
  executed so far. A statement runs only while the flow is \<open>Next\<close>; after a \<open>return\<close> or
  an exception the statements that follow are skipped. \<open>model_process\<close> is
  \<open>self.model_wrapper.process\<close>, the ONNX model.
\<close>

record frame =
  store_of :: store
  v_tile_img :: array_ref
  v_result :: "array_ref option"
  executed :: "nat list"

datatype flow = Next frame | Return array_ref frame | Raise py_error frame

definition stmt :: "nat \<Rightarrow> (frame \<Rightarrow> flow) \<Rightarrow> flow \<Rightarrow> flow" where
  "stmt line_no body fl =
    (case fl of
       Next fr \<Rightarrow> body (fr \<lparr> executed := executed fr @ [line_no] \<rparr>)
     | Return r fr \<Rightarrow> Return r fr
     | Raise e fr \<Rightarrow> Raise e fr)"

definition return_result :: "frame \<Rightarrow> flow" where
  "return_result fr =
    (case v_result fr of
       Some r \<Rightarrow> Return r fr
     | None \<Rightarrow> Raise (Exception ''UnboundLocalError'') fr)"

definition process_tile_body ::
  "(store \<Rightarrow> array_ref \<Rightarrow> py_error + array_ref \<times> store) \<Rightarrow> store \<Rightarrow> array_ref \<Rightarrow> flow" where
  "process_tile_body model_process st tile_img =
    (let fl = Next \<lparr> store_of = st, v_tile_img = tile_img, v_result = None, executed = [] \<rparr>;
         fl = stmt 533 (\<lambda>fr. case copy_copy (store_of fr) (v_tile_img fr) of
                               (r, st') \<Rightarrow> Next (fr \<lparr> store_of := st', v_tile_img := r \<rparr>)) fl;
         fl = stmt 534 (\<lambda>fr. case getitem_channel (store_of fr) (v_tile_img fr) 0 of
                               Inl e \<Rightarrow> Raise e fr
                             | Inr r \<Rightarrow> Next (fr \<lparr> v_tile_img := r \<rparr>)) fl;
         fl = stmt 535 (\<lambda>fr. Next (fr \<lparr> store_of :=
                               setitem_where (\<lambda>e. e < 255) 0 (store_of fr) (v_tile_img fr) \<rparr>)) fl;
         fl = stmt 536 (\<lambda>fr. Next (fr \<lparr> store_of :=
                               setitem_where (\<lambda>e. 255 \<le> e) 255 (store_of fr) (v_tile_img fr) \<rparr>)) fl;
         fl = stmt 537 (\<lambda>fr. Next (fr \<lparr> v_result := Some (v_tile_img fr) \<rparr>)) fl;
         fl = stmt 538 return_result fl;
         fl = stmt 540 (\<lambda>fr. case model_process (store_of fr) (v_tile_img fr) of
                               Inl e \<Rightarrow> Raise e fr
                             | Inr (r, st') \<Rightarrow> Next (fr \<lparr> store_of := st', v_result := Some r \<rparr>)) fl;
         fl = stmt 541 return_result fl
     in fl)"

text \<open>The frame a flow ended in, and the well-formedness of a buffer's pixels.\<close>

fun frame_of :: "flow \<Rightarrow> frame" where
  "frame_of (Next fr) = fr"
| "frame_of (Return r fr) = fr"
| "frame_of (Raise e fr) = fr"

definition pixels_ok :: "'a ndarray3 \<Rightarrow> bool" where
  "pixels_ok a = list_all (list_all (\<lambda>p. length p = dim_c a)) (px3 a)"

text \<open>
  A tile image of one row of three pixels with two channels, and a model that fails when
  called.
\<close>

definition example_tile :: "8 word ndarray3" where
  "example_tile = \<lparr> dim_y = 1, dim_x = 3, dim_c = 2, px3 = [[[255, 7], [254, 8], [0, 255]]] \<rparr>"

definition failing_model :: "store \<Rightarrow> array_ref \<Rightarrow> py_error + array_ref \<times> store" where
  "failing_model st r = Inl (Exception ''model called'')"

section \<open>Theorems\<close>

subsection \<open>Core regions tile the output image\<close>

lemma core_cols:
  "snd (core_slices ip upp ext xbs ybs col row) =
     (let h = (tile_size_px ip - processing_stride_px ip) div 2;
          s = processing_stride_px ip; t = tile_size_px ip
      in \<lparr> start = (if col = 0 then 0 else col * s + h),
            stop = (if col = xbs - 1 then col * s + t else col * s + t - h) \<rparr>)"
  by (simp add: core_slices_def get_slice_on_full_image_for_copying_def TileParams_init_def Let_def)

lemma core_rows:
  "fst (core_slices ip upp ext xbs ybs col row) =
     (let h = (tile_size_px ip - processing_stride_px ip) div 2;
          s = processing_stride_px ip; t = tile_size_px ip
      in \<lparr> start = (if row = 0 then 0 else row * s + h),
            stop = (if row = ybs - 1 then row * s + t else row * s + t - h) \<rparr>)"
  by (simp add: core_slices_def get_slice_on_full_image_for_copying_def TileParams_init_def Let_def)

lemma chain_mono_lo:
  fixes lo hi :: "int \<Rightarrow> int"
  assumes cont: "\<And>c. 0 \<le> c \<Longrightarrow> c + 1 < n \<Longrightarrow> hi c = lo (c + 1)"
    and ne: "\<And>c. 0 \<le> c \<Longrightarrow> c < n \<Longrightarrow> lo c < hi c"
    and "0 \<le> c" "c < c'" "c' < n"
  shows "hi c \<le> lo c'"
proof -
  have "c + 1 \<le> c'" using assms by simp
  then show ?thesis using \<open>c' < n\<close>
  proof (induction c' rule: int_ge_induct)
    case base
    then show ?case using cont[of c] \<open>0 \<le> c\<close> by simp
  next
    case (step k)
    have "hi c \<le> lo k" using step by simp
    also have "lo k < hi k" using ne[of k] step \<open>0 \<le> c\<close> by simp
    also have "hi k = lo (k + 1)" using cont[of k] step \<open>0 \<le> c\<close> by simp
    finally show ?case by simp
  qed
qed

lemma chain_disjoint:
  fixes lo hi :: "int \<Rightarrow> int"
  assumes cont: "\<And>c. 0 \<le> c \<Longrightarrow> c + 1 < n \<Longrightarrow> hi c = lo (c + 1)"
    and ne: "\<And>c. 0 \<le> c \<Longrightarrow> c < n \<Longrightarrow> lo c < hi c"
    and "0 \<le> c" "c < n" "0 \<le> c'" "c' < n" "c \<noteq> c'"
  shows "{lo c ..< hi c} \<inter> {lo c' ..< hi c'} = {}"
proof (cases "c < c'")
  case True
  then have "hi c \<le> lo c'" using chain_mono_lo[where lo=lo and hi=hi and n=n and c=c and c'=c', OF cont ne] assms by simp
  then show ?thesis by auto
next
  case False
  then have "c' < c" using assms by simp
  then have "hi c' \<le> lo c" using chain_mono_lo[where lo=lo and hi=hi and n=n and c=c' and c'=c, OF cont ne] assms by simp
  then show ?thesis by auto
qed

lemma chain_cover:
  fixes lo hi :: "int \<Rightarrow> int"
  assumes cont: "\<And>c. 0 \<le> c \<Longrightarrow> c + 1 < n \<Longrightarrow> hi c = lo (c + 1)"
    and "0 \<le> k" "k < n" "lo 0 \<le> x" "x < hi k"
  shows "\<exists>c. 0 \<le> c \<and> c \<le> k \<and> lo c \<le> x \<and> x < hi c"
  using \<open>0 \<le> k\<close> \<open>k < n\<close> \<open>x < hi k\<close>
proof (induction k rule: int_ge_induct)
  case base
  then show ?case using \<open>lo 0 \<le> x\<close> by auto
next
  case (step k)
  show ?case
  proof (cases "x < hi k")
    case True
    then obtain c where "0 \<le> c" "c \<le> k" "lo c \<le> x" "x < hi c" using step by auto
    then show ?thesis by (intro exI[of _ c]) simp
  next
    case False
    then have "lo (k + 1) \<le> x" using cont[of k] step by simp
    then show ?thesis using step by (intro exI[of _ "k + 1"]) simp
  qed
qed

lemma chain_union:
  fixes lo hi :: "int \<Rightarrow> int"
  assumes cont: "\<And>c. 0 \<le> c \<Longrightarrow> c + 1 < n \<Longrightarrow> hi c = lo (c + 1)"
    and ne: "\<And>c. 0 \<le> c \<Longrightarrow> c < n \<Longrightarrow> lo c < hi c"
    and "0 < n"
  shows "(\<Union>c\<in>{0..<n}. {lo c ..< hi c}) = {lo 0 ..< hi (n - 1)}"
proof (intro equalityI subsetI)
  fix x assume "x \<in> (\<Union>c\<in>{0..<n}. {lo c ..< hi c})"
  then obtain c where c: "0 \<le> c" "c < n" "lo c \<le> x" "x < hi c" by auto
  have "lo 0 \<le> lo c"
  proof (cases "c = 0")
    case False
    then have "hi 0 \<le> lo c" using chain_mono_lo[where lo=lo and hi=hi and n=n and c=0 and c'=c, OF cont ne] c by simp
    then show ?thesis using ne[of 0] \<open>0 < n\<close> by simp
  qed simp
  moreover have "hi c \<le> hi (n - 1)"
  proof (cases "c = n - 1")
    case False
    then have "hi c \<le> lo (n - 1)" using chain_mono_lo[where lo=lo and hi=hi and n=n and c=c and c'="n - 1", OF cont ne] c by simp
    then show ?thesis using ne[of "n - 1"] \<open>0 < n\<close> by simp
  qed simp
  ultimately show "x \<in> {lo 0 ..< hi (n - 1)}" using c by simp
next
  fix x assume "x \<in> {lo 0 ..< hi (n - 1)}"
  then have "lo 0 \<le> x" "x < hi (n - 1)" by simp_all
  then obtain c where "0 \<le> c" "c \<le> n - 1" "lo c \<le> x" "x < hi c"
    using chain_cover[where lo=lo and hi=hi and n=n and k="n - 1" and x=x, OF cont] \<open>0 < n\<close> by auto
  then show "x \<in> (\<Union>c\<in>{0..<n}. {lo c ..< hi c})" by auto
qed


lemma core_x_cont:
  assumes "even (tile_size_px ip - processing_stride_px ip)" "0 \<le> c" "c + 1 < xbs"
  shows "stop (snd (core_slices ip upp ext xbs ybs c row)) =
         start (snd (core_slices ip upp ext xbs ybs (c + 1) row'))"
proof -
  have "2 * ((tile_size_px ip - processing_stride_px ip) div 2) =
        tile_size_px ip - processing_stride_px ip"
    using assms(1) by simp
  then show ?thesis using assms(2,3)
    by (simp add: core_cols Let_def algebra_simps)
qed

lemma core_y_cont:
  assumes "even (tile_size_px ip - processing_stride_px ip)" "0 \<le> r" "r + 1 < ybs"
  shows "stop (fst (core_slices ip upp ext xbs ybs col r)) =
         start (fst (core_slices ip upp ext xbs ybs col' (r + 1)))"
proof -
  have "2 * ((tile_size_px ip - processing_stride_px ip) div 2) =
        tile_size_px ip - processing_stride_px ip"
    using assms(1) by simp
  then show ?thesis using assms(2,3)
    by (simp add: core_rows Let_def algebra_simps)
qed

lemma core_x_nonempty:
  assumes "0 < processing_stride_px ip" "processing_stride_px ip \<le> tile_size_px ip" "0 \<le> c"
  shows "start (snd (core_slices ip upp ext xbs ybs c row)) <
         stop (snd (core_slices ip upp ext xbs ybs c row))"
proof -
  have "0 \<le> c * processing_stride_px ip" using assms by simp
  moreover have "2 * ((tile_size_px ip - processing_stride_px ip) div 2) \<le>
        tile_size_px ip - processing_stride_px ip" by simp
  ultimately show ?thesis using assms
    by (simp add: core_cols Let_def)
qed

lemma core_y_nonempty:
  assumes "0 < processing_stride_px ip" "processing_stride_px ip \<le> tile_size_px ip" "0 \<le> r"
  shows "start (fst (core_slices ip upp ext xbs ybs col r)) <
         stop (fst (core_slices ip upp ext xbs ybs col r))"
proof -
  have "0 \<le> r * processing_stride_px ip" using assms by simp
  moreover have "2 * ((tile_size_px ip - processing_stride_px ip) div 2) \<le>
        tile_size_px ip - processing_stride_px ip" by simp
  ultimately show ?thesis using assms
    by (simp add: core_rows Let_def)
qed


lemma times_disjoint_fst: "A \<inter> A' = {} \<Longrightarrow> (A \<times> B) \<inter> (A' \<times> B') = {}"
  by auto

lemma times_disjoint_snd: "B \<inter> B' = {} \<Longrightarrow> (A \<times> B) \<inter> (A' \<times> B') = {}"
  by auto

lemma UN_times_swap: "(\<Union>c\<in>C. \<Union>r\<in>R. Y r \<times> X c) = (\<Union>r\<in>R. Y r) \<times> (\<Union>c\<in>C. X c)"
  by auto

text \<open>
  Claim C1. For a grid specification with \<open>tile_size_px > 0\<close>, \<open>0 < stride_px \<le> tile_size_px\<close>
  and an even overlap \<open>tile_size_px - stride_px\<close>, and a grid of \<open>xbs \<times> ybs\<close> tiles (each
  count at least 1): the \<open>core_region_full\<close> rectangles of two different tiles are disjoint;
  the union of all of them is the rectangle of rows \<open>[0, height_px)\<close> and columns
  \<open>[0, width_px)\<close>, where \<open>width_px = (xbs - 1) * stride_px + tile_size_px\<close> and likewise the
  height; and for horizontally adjacent tiles \<open>xMax + 1\<close> of the left one is \<open>xMin\<close> of the
  right one (\<open>xMax\<close> is the slice's \<open>stop - 1\<close>, \<open>xMin\<close> its \<open>start\<close>).
\<close>

theorem core_regions_tile_output:
  assumes T: "0 < tile_size_px ip"
    and S: "0 < processing_stride_px ip" "processing_stride_px ip \<le> tile_size_px ip"
    and ev: "even (tile_size_px ip - processing_stride_px ip)"
    and n: "1 \<le> xbs" "1 \<le> ybs"
  shows "(\<forall>col row col' row'.
            0 \<le> col \<and> col < xbs \<and> 0 \<le> row \<and> row < ybs \<and>
            0 \<le> col' \<and> col' < xbs \<and> 0 \<le> row' \<and> row' < ybs \<and> (col, row) \<noteq> (col', row') \<longrightarrow>
            core_region_full ip upp ext xbs ybs col row \<inter>
            core_region_full ip upp ext xbs ybs col' row' = {}) \<and>
         (\<Union>col\<in>{0..<xbs}. \<Union>row\<in>{0..<ybs}. core_region_full ip upp ext xbs ybs col row) =
            {0 ..< (ybs - 1) * processing_stride_px ip + tile_size_px ip} \<times>
            {0 ..< (xbs - 1) * processing_stride_px ip + tile_size_px ip} \<and>
         (\<forall>col row. 0 \<le> col \<and> col + 1 < xbs \<and> 0 \<le> row \<and> row < ybs \<longrightarrow>
            (stop (snd (core_slices ip upp ext xbs ybs col row)) - 1) + 1 =
            start (snd (core_slices ip upp ext xbs ybs (col + 1) row)))"
proof -
  define xlo where "xlo c = start (snd (core_slices ip upp ext xbs ybs c 0))" for c
  define xhi where "xhi c = stop (snd (core_slices ip upp ext xbs ybs c 0))" for c
  define ylo where "ylo r = start (fst (core_slices ip upp ext xbs ybs 0 r))" for r
  define yhi where "yhi r = stop (fst (core_slices ip upp ext xbs ybs 0 r))" for r
  have region: "core_region_full ip upp ext xbs ybs c r = {ylo r ..< yhi r} \<times> {xlo c ..< xhi c}"
    for c r
    by (simp add: core_region_full_def rect_of_slices_def slice_range_def core_cols core_rows
        xlo_def xhi_def ylo_def yhi_def)
  have xcont: "\<And>c. 0 \<le> c \<Longrightarrow> c + 1 < xbs \<Longrightarrow> xhi c = xlo (c + 1)"
    unfolding xlo_def xhi_def using core_x_cont[OF ev] by simp
  have ycont: "\<And>r. 0 \<le> r \<Longrightarrow> r + 1 < ybs \<Longrightarrow> yhi r = ylo (r + 1)"
    unfolding ylo_def yhi_def using core_y_cont[OF ev] by simp
  have xne: "\<And>c. 0 \<le> c \<Longrightarrow> c < xbs \<Longrightarrow> xlo c < xhi c"
    unfolding xlo_def xhi_def using core_x_nonempty[OF S] by simp
  have yne: "\<And>r. 0 \<le> r \<Longrightarrow> r < ybs \<Longrightarrow> ylo r < yhi r"
    unfolding ylo_def yhi_def using core_y_nonempty[OF S] by simp
  have xdisj: "{xlo c ..< xhi c} \<inter> {xlo c' ..< xhi c'} = {}"
    if "0 \<le> c" "c < xbs" "0 \<le> c'" "c' < xbs" "c \<noteq> c'" for c c'
    using chain_disjoint[where lo=xlo and hi=xhi and n=xbs, OF xcont xne] that by simp
  have ydisj: "{ylo r ..< yhi r} \<inter> {ylo r' ..< yhi r'} = {}"
    if "0 \<le> r" "r < ybs" "0 \<le> r'" "r' < ybs" "r \<noteq> r'" for r r'
    using chain_disjoint[where lo=ylo and hi=yhi and n=ybs, OF ycont yne] that by simp
  have disjoint: "core_region_full ip upp ext xbs ybs c r \<inter>
                  core_region_full ip upp ext xbs ybs c' r' = {}"
    if "0 \<le> c" "c < xbs" "0 \<le> r" "r < ybs" "0 \<le> c'" "c' < xbs" "0 \<le> r'" "r' < ybs"
       "(c, r) \<noteq> (c', r')" for c r c' r'
  proof (cases "c = c'")
    case True
    then have "r \<noteq> r'" using that(9) by simp
    then have "{ylo r ..< yhi r} \<inter> {ylo r' ..< yhi r'} = {}"
      using ydisj[of r r'] that(3,4,7,8) by simp
    then show ?thesis unfolding region by (rule times_disjoint_fst)
  next
    case False
    then have "{xlo c ..< xhi c} \<inter> {xlo c' ..< xhi c'} = {}"
      using xdisj[of c c'] that(1,2,5,6) by simp
    then show ?thesis unfolding region by (rule times_disjoint_snd)
  qed
  have xun: "(\<Union>c\<in>{0..<xbs}. {xlo c ..< xhi c}) = {xlo 0 ..< xhi (xbs - 1)}"
    using chain_union[where lo=xlo and hi=xhi and n=xbs, OF xcont xne] n by simp
  have yun: "(\<Union>r\<in>{0..<ybs}. {ylo r ..< yhi r}) = {ylo 0 ..< yhi (ybs - 1)}"
    using chain_union[where lo=ylo and hi=yhi and n=ybs, OF ycont yne] n by simp
  have x0: "xlo 0 = 0" by (simp add: xlo_def core_cols Let_def)
  have y0: "ylo 0 = 0" by (simp add: ylo_def core_rows Let_def)
  have xN: "xhi (xbs - 1) = (xbs - 1) * processing_stride_px ip + tile_size_px ip"
    by (simp add: xhi_def core_cols Let_def)
  have yN: "yhi (ybs - 1) = (ybs - 1) * processing_stride_px ip + tile_size_px ip"
    by (simp add: yhi_def core_rows Let_def)
  have "(\<Union>c\<in>{0..<xbs}. \<Union>r\<in>{0..<ybs}. core_region_full ip upp ext xbs ybs c r) =
        (\<Union>r\<in>{0..<ybs}. {ylo r ..< yhi r}) \<times> (\<Union>c\<in>{0..<xbs}. {xlo c ..< xhi c})"
    unfolding region by (rule UN_times_swap)
  then have union: "(\<Union>c\<in>{0..<xbs}. \<Union>r\<in>{0..<ybs}. core_region_full ip upp ext xbs ybs c r) =
        {0 ..< (ybs - 1) * processing_stride_px ip + tile_size_px ip} \<times>
        {0 ..< (xbs - 1) * processing_stride_px ip + tile_size_px ip}"
    by (simp only: xun yun x0 y0 xN yN)
  have contiguous: "(stop (snd (core_slices ip upp ext xbs ybs c r)) - 1) + 1 =
            start (snd (core_slices ip upp ext xbs ybs (c + 1) r))"
    if "0 \<le> c" "c + 1 < xbs" for c r
    using core_x_cont[OF ev that, of upp ext ybs r r] by simp
  show ?thesis
  proof (intro conjI allI impI)
    fix col row col' row'
    assume "0 \<le> col \<and> col < xbs \<and> 0 \<le> row \<and> row < ybs \<and>
            0 \<le> col' \<and> col' < xbs \<and> 0 \<le> row' \<and> row' < ybs \<and> (col, row) \<noteq> (col', row')"
    then show "core_region_full ip upp ext xbs ybs col row \<inter>
            core_region_full ip upp ext xbs ybs col' row' = {}"
      using disjoint[of col row col' row'] by simp
  next
    show "(\<Union>col\<in>{0..<xbs}. \<Union>row\<in>{0..<ybs}. core_region_full ip upp ext xbs ybs col row) =
            {0 ..< (ybs - 1) * processing_stride_px ip + tile_size_px ip} \<times>
            {0 ..< (xbs - 1) * processing_stride_px ip + tile_size_px ip}"
      by (rule union)
  next
    fix col row
    assume "0 \<le> col \<and> col + 1 < xbs \<and> 0 \<le> row \<and> row < ybs"
    then show "(stop (snd (core_slices ip upp ext xbs ybs col row)) - 1) + 1 =
            start (snd (core_slices ip upp ext xbs ybs (col + 1) row))"
      using contiguous[of col row] by simp
  qed
qed


theorem core_regions_tile_output_witness:
  "core_region_full \<lparr> tile_size_px = 4, processing_stride_px = 2, processing_overlap_px = 2,
        resolution_m_per_px = 1, processed_area_type = ENTIRE_LAYER, mask_layer_name = None,
        postprocessing_dilate_erode_size = 0 \<rparr> 1
        \<lparr> xMinimum = 0, yMinimum = 0, xMaximum = 6, yMaximum = 4 \<rparr> 2 1 0 0 \<inter>
   core_region_full \<lparr> tile_size_px = 4, processing_stride_px = 2, processing_overlap_px = 2,
        resolution_m_per_px = 1, processed_area_type = ENTIRE_LAYER, mask_layer_name = None,
        postprocessing_dilate_erode_size = 0 \<rparr> 1
        \<lparr> xMinimum = 0, yMinimum = 0, xMaximum = 6, yMaximum = 4 \<rparr> 2 1 1 0 = {} \<and>
   (\<Union>col\<in>{0..<2}. \<Union>row\<in>{0..<1}.
      core_region_full \<lparr> tile_size_px = 4, processing_stride_px = 2, processing_overlap_px = 2,
        resolution_m_per_px = 1, processed_area_type = ENTIRE_LAYER, mask_layer_name = None,
        postprocessing_dilate_erode_size = 0 \<rparr> 1
        \<lparr> xMinimum = 0, yMinimum = 0, xMaximum = 6, yMaximum = 4 \<rparr> 2 1 col row) =
      {0 ..< 4} \<times> {0 ..< 6} \<and>
   stop (snd (core_slices \<lparr> tile_size_px = 4, processing_stride_px = 2, processing_overlap_px = 2,
        resolution_m_per_px = 1, processed_area_type = ENTIRE_LAYER, mask_layer_name = None,
        postprocessing_dilate_erode_size = 0 \<rparr> 1
        \<lparr> xMinimum = 0, yMinimum = 0, xMaximum = 6, yMaximum = 4 \<rparr> 2 1 0 0)) = 3 \<and>
   start (snd (core_slices \<lparr> tile_size_px = 4, processing_stride_px = 2, processing_overlap_px = 2,
        resolution_m_per_px = 1, processed_area_type = ENTIRE_LAYER, mask_layer_name = None,
        postprocessing_dilate_erode_size = 0 \<rparr> 1
        \<lparr> xMinimum = 0, yMinimum = 0, xMaximum = 6, yMaximum = 4 \<rparr> 2 1 1 0)) = 3"
proof -
  let ?ip = "\<lparr> tile_size_px = 4, processing_stride_px = 2, processing_overlap_px = 2,
        resolution_m_per_px = 1, processed_area_type = ENTIRE_LAYER, mask_layer_name = None,
        postprocessing_dilate_erode_size = 0 \<rparr>"
  let ?ext = "\<lparr> xMinimum = 0, yMinimum = 0, xMaximum = 6, yMaximum = 4 \<rparr>"
  have h: "0 < tile_size_px ?ip" "0 < processing_stride_px ?ip"
    "processing_stride_px ?ip \<le> tile_size_px ?ip"
    "even (tile_size_px ?ip - processing_stride_px ?ip)" "(1::int) \<le> 2" "(1::int) \<le> 1"
    by simp_all
  note t = core_regions_tile_output[OF h, of 1 ?ext]
  have a: "core_region_full ?ip 1 ?ext 2 1 0 0 \<inter> core_region_full ?ip 1 ?ext 2 1 1 0 = {}"
    using t by simp
  have b: "(\<Union>col\<in>{0..<2}. \<Union>row\<in>{0..<1}. core_region_full ?ip 1 ?ext 2 1 col row) =
      {0 ..< 4} \<times> {0 ..< 6}"
    using t by simp
  have c: "stop (snd (core_slices ?ip 1 ?ext 2 1 0 0)) = 3"
    by (simp add: core_cols)
  have d: "start (snd (core_slices ?ip 1 ?ext 2 1 1 0)) = 3"
    by (simp add: core_cols)
  show ?thesis using a b c d by simp
qed

subsection \<open>Rounding an extent to the raster grid\<close>








subsection \<open>The base extent and its errors\<close>

text \<open>
  Claim C8, as amended. The base-extent computation raises in these cases and no others
  (for a raster whose pixel size is not zero): \<open>AssertionError\<close> when \<open>FROM_POLYGONS\<close> is
  selected and no mask layer name is given; \<open>IndexError\<close> when \<open>FROM_POLYGONS\<close> is selected
  and the project has no layer of the given name; \<open>Exception\<close> for a mode that is none of
  the three supported ones. For \<open>ENTIRE_LAYER\<close>, for \<open>VISIBLE_PART\<close>, and for \<open>FROM_POLYGONS\<close>
  with a name that the project resolves to a layer, it returns an extent.
\<close>

theorem base_extent_errors:
  "(processed_area_type ip = FROM_POLYGONS \<and> mask_layer_name ip = None \<longrightarrow>
      calculate_base_processing_extent_in_rlayer_crs env rl ip canvas = Inl AssertionError) \<and>
   (processed_area_type ip = FROM_POLYGONS \<and>
      (\<exists>name. mask_layer_name ip = Some name \<and> mapLayersByName env name = []) \<longrightarrow>
      calculate_base_processing_extent_in_rlayer_crs env rl ip canvas = Inl IndexError) \<and>
   (processed_area_type ip = OTHER_AREA_TYPE \<longrightarrow>
      calculate_base_processing_extent_in_rlayer_crs env rl ip canvas =
        Inl (Exception ''Invalid processed are type!'')) \<and>
   (rasterUnitsPerPixelX rl \<noteq> 0 \<and> rasterUnitsPerPixelY rl \<noteq> 0 \<and>
    (processed_area_type ip = ENTIRE_LAYER \<or> processed_area_type ip = VISIBLE_PART \<or>
     (processed_area_type ip = FROM_POLYGONS \<and>
       (\<exists>name. mask_layer_name ip = Some name \<and> mapLayersByName env name \<noteq> []))) \<longrightarrow>
      (\<exists>r. calculate_base_processing_extent_in_rlayer_crs env rl ip canvas = Inr r))"
proof (intro conjI impI)
  assume "processed_area_type ip = FROM_POLYGONS \<and> mask_layer_name ip = None"
  then show "calculate_base_processing_extent_in_rlayer_crs env rl ip canvas = Inl AssertionError"
    by (simp add: calculate_base_processing_extent_in_rlayer_crs_def)
next
  assume "processed_area_type ip = FROM_POLYGONS \<and>
      (\<exists>name. mask_layer_name ip = Some name \<and> mapLayersByName env name = [])"
  then show "calculate_base_processing_extent_in_rlayer_crs env rl ip canvas = Inl IndexError"
    by (auto simp add: calculate_base_processing_extent_in_rlayer_crs_def)
next
  assume "processed_area_type ip = OTHER_AREA_TYPE"
  then show "calculate_base_processing_extent_in_rlayer_crs env rl ip canvas =
        Inl (Exception ''Invalid processed are type!'')"
    by (simp add: calculate_base_processing_extent_in_rlayer_crs_def)
next
  assume a: "rasterUnitsPerPixelX rl \<noteq> 0 \<and> rasterUnitsPerPixelY rl \<noteq> 0 \<and>
    (processed_area_type ip = ENTIRE_LAYER \<or> processed_area_type ip = VISIBLE_PART \<or>
     (processed_area_type ip = FROM_POLYGONS \<and>
       (\<exists>name. mask_layer_name ip = Some name \<and> mapLayersByName env name \<noteq> [])))"
  have rounds: "\<exists>r. round_extent_to_rlayer_grid e rl = Inr r" for e
    using a by (simp add: round_extent_to_rlayer_grid_def Let_def)
  from a obtain e where
    "calculate_base_processing_extent_in_rlayer_crs env rl ip canvas =
       (case round_extent_to_rlayer_grid e rl of
          Inl err \<Rightarrow> Inl err
        | Inr expected_extent \<Rightarrow> Inr (intersect expected_extent (rl_extent rl)))"
    by (auto simp add: calculate_base_processing_extent_in_rlayer_crs_def neq_Nil_conv Let_def)
  then show "\<exists>r. calculate_base_processing_extent_in_rlayer_crs env rl ip canvas = Inr r"
    using rounds[of e] by auto
qed

theorem base_extent_errors_witness:
  "calculate_base_processing_extent_in_rlayer_crs empty_project (unit_raster 5 5)
      ((grid_params 4 2) \<lparr> processed_area_type := FROM_POLYGONS \<rparr>) example_canvas
     = Inl AssertionError \<and>
   calculate_base_processing_extent_in_rlayer_crs mask_project (unit_raster 5 5)
      ((grid_params 4 2) \<lparr> processed_area_type := FROM_POLYGONS, mask_layer_name := Some ''other'' \<rparr>)
      example_canvas
     = Inl IndexError \<and>
   calculate_base_processing_extent_in_rlayer_crs empty_project (unit_raster 5 5)
      ((grid_params 4 2) \<lparr> processed_area_type := OTHER_AREA_TYPE \<rparr>) example_canvas
     = Inl (Exception ''Invalid processed are type!'') \<and>
   (\<exists>r. calculate_base_processing_extent_in_rlayer_crs mask_project (unit_raster 5 5)
      ((grid_params 4 2) \<lparr> processed_area_type := FROM_POLYGONS, mask_layer_name := Some ''mask'' \<rparr>)
      example_canvas = Inr r) \<and>
   (\<exists>r. calculate_base_processing_extent_in_rlayer_crs empty_project (unit_raster 5 5)
      ((grid_params 4 2) \<lparr> processed_area_type := VISIBLE_PART \<rparr>) example_canvas = Inr r)"
proof -
  let ?rl = "unit_raster 5 5"
  let ?ip = "\<lambda>t m. (grid_params 4 2) \<lparr> processed_area_type := t, mask_layer_name := m \<rparr>"
  have a: "calculate_base_processing_extent_in_rlayer_crs empty_project ?rl
             (?ip FROM_POLYGONS None) example_canvas = Inl AssertionError"
    using base_extent_errors[of "?ip FROM_POLYGONS None" empty_project ?rl example_canvas]
    by (simp add: grid_params_def)
  have b: "calculate_base_processing_extent_in_rlayer_crs mask_project ?rl
             (?ip FROM_POLYGONS (Some ''other'')) example_canvas = Inl IndexError"
    using base_extent_errors[of "?ip FROM_POLYGONS (Some ''other'')" mask_project ?rl example_canvas]
    by (simp add: grid_params_def mask_project_def)
  have c: "calculate_base_processing_extent_in_rlayer_crs empty_project ?rl
             (?ip OTHER_AREA_TYPE None) example_canvas = Inl (Exception ''Invalid processed are type!'')"
    using base_extent_errors[of "?ip OTHER_AREA_TYPE None" empty_project ?rl example_canvas]
    by (simp add: grid_params_def)
  have d: "\<exists>r. calculate_base_processing_extent_in_rlayer_crs mask_project ?rl
             (?ip FROM_POLYGONS (Some ''mask'')) example_canvas = Inr r"
    using base_extent_errors[of "?ip FROM_POLYGONS (Some ''mask'')" mask_project ?rl example_canvas]
    by (simp add: grid_params_def mask_project_def unit_raster_def)
  have e: "\<exists>r. calculate_base_processing_extent_in_rlayer_crs empty_project ?rl
             (?ip VISIBLE_PART None) example_canvas = Inr r"
    using base_extent_errors[of "?ip VISIBLE_PART None" empty_project ?rl example_canvas]
    by (simp add: grid_params_def unit_raster_def)
  show ?thesis using a b c d e by (simp add: grid_params_def)
qed

text \<open>
  The claim as stated names two raising cases. A third: \<open>FROM_POLYGONS\<close> with a mask layer
  name given, in a project that has no layer of that name; the subscript \<open>[0]\<close> on the
  empty result of \<open>mapLayersByName\<close> raises \<open>IndexError\<close>.
\<close>

theorem base_extent_unknown_mask_layer:
  "calculate_base_processing_extent_in_rlayer_crs empty_project (unit_raster 5 5)
      ((grid_params 4 2) \<lparr> processed_area_type := FROM_POLYGONS, mask_layer_name := Some ''mask'' \<rparr>)
      example_canvas = Inl IndexError"
  by (simp add: calculate_base_processing_extent_in_rlayer_crs_def grid_params_def empty_project_def)

subsection \<open>The extended extent\<close>

text \<open>
  Claim C2 at a concrete input. A raster of 5 by 5 units processed whole at 2 units per
  pixel with \<open>tile_size_px = 5\<close>: the clamped extent measures \<open>round(2.5) = 2\<close> pixels, so 3
  pixels (6 units) are added; the returned extent is 11 units wide and measures
  \<open>round(5.5) = 6\<close> pixels, not the 5 of one tile, and \<open>(6 - 5) mod 3\<close> is not 0. The
  constructor ends with an image of 6 by 6 pixels and a grid of one tile of 5 by 5.
\<close>

theorem extended_extent_tie_rounding:
  "calculate_extended_processing_extent
      \<lparr> rl_extent = \<lparr> xMinimum = 0, yMinimum = 0, xMaximum = 5, yMaximum = 5 \<rparr>,
        rasterUnitsPerPixelX = 1, rasterUnitsPerPixelY = 1, rl_crs = ''EPSG:32633'',
        mapUnits = DistanceMeters \<rparr>
      \<lparr> tile_size_px = 5, processing_stride_px = 3, processing_overlap_px = 2,
        resolution_m_per_px = 2, processed_area_type = ENTIRE_LAYER, mask_layer_name = None,
        postprocessing_dilate_erode_size = 0 \<rparr>
      3 2 \<lparr> xMinimum = 0, yMinimum = 0, xMaximum = 5, yMaximum = 5 \<rparr>
    = Inr \<lparr> xMinimum = 0, yMinimum = 0, xMaximum = 11, yMaximum = 11 \<rparr> \<and>
   img_size_pixels (width \<lparr> xMinimum = 0, yMinimum = 0, xMaximum = 5, yMaximum = 5 \<rparr>) 2 = 2 \<and>
   img_size_pixels (width \<lparr> xMinimum = 0, yMinimum = 0, xMaximum = 11, yMaximum = 11 \<rparr>) 2 = 6 \<and>
   (6 - 5) mod (3::int) \<noteq> 0 \<and>
   map_sum id (\<lambda>self. (extended_extent self, img_size_x_pixels self, img_size_y_pixels self,
                         mp_x_bins_number self, mp_y_bins_number self))
     (MapProcessor_init \<lparr> mapLayersByName = (\<lambda>name. []), transform = (\<lambda>src dst r. r) \<rparr>
        \<lparr> rl_extent = \<lparr> xMinimum = 0, yMinimum = 0, xMaximum = 5, yMaximum = 5 \<rparr>,
          rasterUnitsPerPixelX = 1, rasterUnitsPerPixelY = 1, rl_crs = ''EPSG:32633'',
          mapUnits = DistanceMeters \<rparr>
        \<lparr> canvas_extent = \<lparr> xMinimum = 0, yMinimum = 0, xMaximum = 5, yMaximum = 5 \<rparr>,
          destinationCrs = ''EPSG:32633'' \<rparr>
        \<lparr> tile_size_px = 5, processing_stride_px = 3, processing_overlap_px = 2,
          resolution_m_per_px = 2, processed_area_type = ENTIRE_LAYER, mask_layer_name = None,
          postprocessing_dilate_erode_size = 0 \<rparr>)
    = Inr (\<lparr> xMinimum = 0, yMinimum = 0, xMaximum = 11, yMaximum = 11 \<rparr>, 6, 6, 1, 1)"
proof -
  have init: "map_sum id (\<lambda>self. (extended_extent self, img_size_x_pixels self, img_size_y_pixels self,
                         mp_x_bins_number self, mp_y_bins_number self))
     (MapProcessor_init \<lparr> mapLayersByName = (\<lambda>name. []), transform = (\<lambda>src dst r. r) \<rparr>
        \<lparr> rl_extent = \<lparr> xMinimum = 0, yMinimum = 0, xMaximum = 5, yMaximum = 5 \<rparr>,
          rasterUnitsPerPixelX = 1, rasterUnitsPerPixelY = 1, rl_crs = ''EPSG:32633'',
          mapUnits = DistanceMeters \<rparr>
        \<lparr> canvas_extent = \<lparr> xMinimum = 0, yMinimum = 0, xMaximum = 5, yMaximum = 5 \<rparr>,
          destinationCrs = ''EPSG:32633'' \<rparr>
        \<lparr> tile_size_px = 5, processing_stride_px = 3, processing_overlap_px = 2,
          resolution_m_per_px = 2, processed_area_type = ENTIRE_LAYER, mask_layer_name = None,
          postprocessing_dilate_erode_size = 0 \<rparr>)
    = Inr (\<lparr> xMinimum = 0, yMinimum = 0, xMaximum = 11, yMaximum = 11 \<rparr>, 6, 6, 1, 1)"
    by code_simp
  have f2: "\<lfloor>5 / 2 :: real\<rfloor> = 2" by (rule floor_unique) simp_all
  have f5: "\<lfloor>11 / 2 :: real\<rfloor> = 5" by (rule floor_unique) simp_all
  have r2: "py_round (5 / 2) = 2" by (simp add: py_round_def Let_def f2)
  have r5: "py_round (11 / 2) = 6" by (simp add: py_round_def Let_def f5)
  have "calculate_extended_processing_extent
      \<lparr> rl_extent = \<lparr> xMinimum = 0, yMinimum = 0, xMaximum = 5, yMaximum = 5 \<rparr>,
        rasterUnitsPerPixelX = 1, rasterUnitsPerPixelY = 1, rl_crs = ''EPSG:32633'',
        mapUnits = DistanceMeters \<rparr>
      \<lparr> tile_size_px = 5, processing_stride_px = 3, processing_overlap_px = 2,
        resolution_m_per_px = 2, processed_area_type = ENTIRE_LAYER, mask_layer_name = None,
        postprocessing_dilate_erode_size = 0 \<rparr>
      3 2 \<lparr> xMinimum = 0, yMinimum = 0, xMaximum = 5, yMaximum = 5 \<rparr>
    = Inr \<lparr> xMinimum = 0, yMinimum = 0, xMaximum = 11, yMaximum = 11 \<rparr> \<and>
   img_size_pixels (width \<lparr> xMinimum = 0, yMinimum = 0, xMaximum = 5, yMaximum = 5 \<rparr>) 2 = 2 \<and>
   img_size_pixels (width \<lparr> xMinimum = 0, yMinimum = 0, xMaximum = 11, yMaximum = 11 \<rparr>) 2 = 6 \<and>
   (6 - 5) mod (3::int) \<noteq> 0"
    by (simp add: calculate_extended_processing_extent_def QgsRectangle_init_def intersect_def
        intersects_def width_def height_def img_size_pixels_def Let_def r2 r5)
  then show ?thesis using init by simp
qed

lemma py_round_add_int:
  assumes "x - of_int \<lfloor>x\<rfloor> \<noteq> 1 / 2"
  shows "py_round (x + of_int m) = py_round x + m"
proof -
  have f: "\<lfloor>x + of_int m\<rfloor> = \<lfloor>x\<rfloor> + m" by simp
  show ?thesis using assms unfolding py_round_def Let_def f by simp
qed

lemma missing_pixels_mod:
  fixes a s :: int
  assumes "0 < s"
  shows "(a + (s - a mod s) mod s) mod s = 0"
proof -
  have "(a + (s - a mod s) mod s) mod s = (a mod s + (s - a mod s)) mod s"
    by (simp add: mod_simps)
  also have "\<dots> = 0" by simp
  finally show ?thesis .
qed

lemma grown_dimension:
  fixes w upp :: real and T s :: int
  assumes upp: "0 < upp" and s: "0 < s"
    and tie: "w / upp - of_int \<lfloor>w / upp\<rfloor> \<noteq> 1 / 2"
  defines "cur \<equiv> py_round (w / upp)"
  defines "missing \<equiv> (if cur \<le> T then T - cur else (s - (cur - T) mod s) mod s)"
  shows "(img_size_pixels (w + of_int missing * upp) upp - T) mod s = 0"
    and "cur \<le> T \<Longrightarrow> img_size_pixels (w + of_int missing * upp) upp = T"
proof -
  have "(w + of_int missing * upp) / upp = w / upp + of_int missing"
    using upp by (simp add: field_simps)
  then have px: "img_size_pixels (w + of_int missing * upp) upp = cur + missing"
    using py_round_add_int[OF tie, of missing] by (simp add: img_size_pixels_def cur_def)
  show "(img_size_pixels (w + of_int missing * upp) upp - T) mod s = 0"
  proof (cases "cur \<le> T")
    case True
    then show ?thesis unfolding px by (simp add: missing_def)
  next
    case False
    have "(cur - T + (s - (cur - T) mod s) mod s) mod s = 0"
      using missing_pixels_mod[OF s] .
    then show ?thesis using False unfolding px by (simp add: missing_def algebra_simps)
  qed
  show "cur \<le> T \<Longrightarrow> img_size_pixels (w + of_int missing * upp) upp = T"
    unfolding px by (simp add: missing_def)
qed


text \<open>
  The extended extent away from rounding ties. When neither the width nor the height of
  the padded and clamped extent, measured in pixels, lies exactly half-way between two
  integers, \<open>_calculate_extended_processing_extent\<close> returns an extent whose pixel width
  and height satisfy \<open>(dimension_px - tile_size_px) mod stride_px = 0\<close>, and a dimension that
  measured at most \<open>tile_size_px\<close> pixels measures exactly \<open>tile_size_px\<close> afterwards.
\<close>

theorem extended_extent_dimensions:
  assumes upp: "0 < upp" and s: "0 < stride"
    and tx: "width (padded_clamped_extent rl ip upp base) / upp
             - of_int \<lfloor>width (padded_clamped_extent rl ip upp base) / upp\<rfloor> \<noteq> 1 / 2"
    and ty: "height (padded_clamped_extent rl ip upp base) / upp
             - of_int \<lfloor>height (padded_clamped_extent rl ip upp base) / upp\<rfloor> \<noteq> 1 / 2"
  shows "\<exists>r. calculate_extended_processing_extent rl ip stride upp base = Inr r \<and>
           (img_size_pixels (width r) upp - tile_size_px ip) mod stride = 0 \<and>
           (img_size_pixels (height r) upp - tile_size_px ip) mod stride = 0 \<and>
           (img_size_pixels (width (padded_clamped_extent rl ip upp base)) upp \<le> tile_size_px ip
              \<longrightarrow> img_size_pixels (width r) upp = tile_size_px ip) \<and>
           (img_size_pixels (height (padded_clamped_extent rl ip upp base)) upp \<le> tile_size_px ip
              \<longrightarrow> img_size_pixels (height r) upp = tile_size_px ip)"
proof -
  define tmp where "tmp = padded_clamped_extent rl ip upp base"
  define T where "T = tile_size_px ip"
  define cx where "cx = py_round (width tmp / upp)"
  define cy where "cy = py_round (height tmp / upp)"
  define mx where "mx = (if cx \<le> T then T - cx else (stride - (cx - T) mod stride) mod stride)"
  define my where "my = (if cy \<le> T then T - cy else (stride - (cy - T) mod stride) mod stride)"
  define r where "r = tmp \<lparr> xMaximum := xMaximum tmp + of_int mx * upp,
                            yMaximum := yMaximum tmp + of_int my * upp \<rparr>"
  have res: "calculate_extended_processing_extent rl ip stride upp base = Inr r"
    using upp s
    by (simp add: calculate_extended_processing_extent_def Let_def r_def mx_def my_def cx_def
        cy_def T_def tmp_def padded_clamped_extent_def)
  have wr: "width r = width tmp + of_int mx * upp" by (simp add: r_def width_def)
  have hr: "height r = height tmp + of_int my * upp" by (simp add: r_def height_def)
  have gx: "(img_size_pixels (width r) upp - T) mod stride = 0"
    "cx \<le> T \<Longrightarrow> img_size_pixels (width r) upp = T"
    using grown_dimension[OF upp s tx[folded tmp_def], of T]
    unfolding wr mx_def cx_def by simp_all
  have gy: "(img_size_pixels (height r) upp - T) mod stride = 0"
    "cy \<le> T \<Longrightarrow> img_size_pixels (height r) upp = T"
    using grown_dimension[OF upp s ty[folded tmp_def], of T]
    unfolding hr my_def cy_def by simp_all
  show ?thesis
    using res gx gy
    by (simp add: T_def[symmetric] tmp_def[symmetric] img_size_pixels_def cx_def cy_def)
qed


theorem extended_extent_dimensions_witness:
  "\<exists>r. calculate_extended_processing_extent
          \<lparr> rl_extent = \<lparr> xMinimum = 0, yMinimum = 0, xMaximum = 9, yMaximum = 3 \<rparr>,
            rasterUnitsPerPixelX = 1, rasterUnitsPerPixelY = 1, rl_crs = ''EPSG:32633'',
            mapUnits = DistanceMeters \<rparr>
          \<lparr> tile_size_px = 4, processing_stride_px = 2, processing_overlap_px = 2,
            resolution_m_per_px = 1, processed_area_type = ENTIRE_LAYER, mask_layer_name = None,
            postprocessing_dilate_erode_size = 0 \<rparr>
          2 1 \<lparr> xMinimum = 0, yMinimum = 0, xMaximum = 9, yMaximum = 3 \<rparr> = Inr r \<and>
        (img_size_pixels (width r) 1 - 4) mod 2 = 0 \<and>
        img_size_pixels (height r) 1 = 4"
proof -
  let ?rl = "\<lparr> rl_extent = \<lparr> xMinimum = 0, yMinimum = 0, xMaximum = 9, yMaximum = 3 \<rparr>,
            rasterUnitsPerPixelX = 1, rasterUnitsPerPixelY = 1, rl_crs = ''EPSG:32633'',
            mapUnits = DistanceMeters \<rparr>"
  let ?ip = "\<lparr> tile_size_px = 4, processing_stride_px = 2, processing_overlap_px = 2,
            resolution_m_per_px = 1, processed_area_type = ENTIRE_LAYER, mask_layer_name = None,
            postprocessing_dilate_erode_size = 0 \<rparr>"
  let ?base = "\<lparr> xMinimum = 0, yMinimum = 0, xMaximum = 9, yMaximum = 3 \<rparr>"
  have p: "padded_clamped_extent ?rl ?ip 1 ?base = ?base"
    by (simp add: padded_clamped_extent_def QgsRectangle_init_def intersect_def intersects_def)
  have h: "(0::real) < 1" "(0::int) < 2"
    "width (padded_clamped_extent ?rl ?ip 1 ?base) / 1
       - of_int \<lfloor>width (padded_clamped_extent ?rl ?ip 1 ?base) / 1\<rfloor> \<noteq> 1 / 2"
    "height (padded_clamped_extent ?rl ?ip 1 ?base) / 1
       - of_int \<lfloor>height (padded_clamped_extent ?rl ?ip 1 ?base) / 1\<rfloor> \<noteq> 1 / 2"
    by (simp_all add: p width_def height_def)
  have small: "img_size_pixels (height (padded_clamped_extent ?rl ?ip 1 ?base)) 1 \<le> tile_size_px ?ip"
    by (simp add: p height_def img_size_pixels_def py_round_def)
  show ?thesis
    using extended_extent_dimensions[OF h] small by auto
qed

subsection \<open>Progress reports of the stitching loop\<close>

lemma tile_body_trace:
  assumes "tt = mp_x_bins_number self * mp_y_bins_number self"
  shows "(fst (tile_body env self tt st y x) \<noteq> None \<and>
            trace (snd (tile_body env self tt st y x)) = trace st) \<or>
         trace (snd (tile_body env self tt st y x)) = trace st @ tile_events self (y, x)"
proof (cases "isCanceled env (cancel_checks st)")
  case True
  then show ?thesis by (simp add: tile_body_def Let_def)
next
  case False
  then show ?thesis using assms
    by (simp add: tile_body_def tile_events_def Let_def split: sum.split prod.split option.split)
qed


lemma loop_x_trace:
  assumes "tt = mp_x_bins_number self * mp_y_bins_number self"
  shows "\<exists>m\<le>length xs.
           trace (snd (loop_x env self tt st y xs)) =
             trace st @ concat (map (\<lambda>x. tile_events self (y, x)) (take m xs)) \<and>
           (fst (loop_x env self tt st y xs) = None \<longrightarrow> m = length xs)"
proof (induction xs arbitrary: st)
  case Nil
  then show ?case by simp
next
  case (Cons x xs)
  obtain o1 st1 where b: "tile_body env self tt st y x = (o1, st1)" by (cases "tile_body env self tt st y x")
  from tile_body_trace[OF assms, of env st y x] b
  consider (stop) "o1 \<noteq> None" "trace st1 = trace st"
    | (run) "trace st1 = trace st @ tile_events self (y, x)" by auto
  then show ?case
  proof cases
    case stop
    then obtain out where "o1 = Some out" by auto
    then have "loop_x env self tt st y (x # xs) = (Some out, st1)" using b by simp
    then show ?thesis using stop(2) by (intro exI[of _ 0]) simp
  next
    case run
    show ?thesis
    proof (cases o1)
      case (Some out)
      then have "loop_x env self tt st y (x # xs) = (Some out, st1)" using b by simp
      then show ?thesis using run by (intro exI[of _ 1]) simp
    next
      case None
      from Cons.IH[of st1] obtain m where m0: "m \<le> length xs \<and>
        trace (snd (loop_x env self tt st1 y xs)) =
             trace st1 @ concat (map (\<lambda>x. tile_events self (y, x)) (take m xs)) \<and>
        (fst (loop_x env self tt st1 y xs) = None \<longrightarrow> m = length xs)" ..
      note m = conjunct1[OF m0] conjunct1[OF conjunct2[OF m0]] conjunct2[OF conjunct2[OF m0]]
      have l: "loop_x env self tt st y (x # xs) = loop_x env self tt st1 y xs"
        using b None by simp
      have "trace (snd (loop_x env self tt st y (x # xs))) =
             trace st @ concat (map (\<lambda>x. tile_events self (y, x)) (take (Suc m) (x # xs)))"
        unfolding l m(2) run by simp
      moreover have "Suc m \<le> length (x # xs)" using m(1) by simp
      moreover have "fst (loop_x env self tt st y (x # xs)) = None \<longrightarrow> Suc m = length (x # xs)"
        unfolding l using m(3) by simp
      ultimately show ?thesis by (intro exI[of _ "Suc m"]) blast
    qed
  qed
qed

lemma loop_y_trace:
  assumes "tt = mp_x_bins_number self * mp_y_bins_number self"
  shows "\<exists>m\<le>length (coords_of self ys).
           trace (snd (loop_y env self tt st ys)) =
             trace st @ concat (map (tile_events self) (take m (coords_of self ys))) \<and>
           (fst (loop_y env self tt st ys) = None \<longrightarrow> m = length (coords_of self ys))"
proof (induction ys arbitrary: st)
  case Nil
  then show ?case by (simp add: coords_of_def)
next
  case (Cons y ys)
  let ?xs = "py_range (mp_x_bins_number self)"
  let ?row = "map (\<lambda>x. (y, x)) ?xs"
  have split: "coords_of self (y # ys) = ?row @ coords_of self ys" by (simp add: coords_of_def)
  obtain o1 st1 where b: "loop_x env self tt st y ?xs = (o1, st1)"
    by (cases "loop_x env self tt st y ?xs")
  from loop_x_trace[OF assms, of ?xs env st y] obtain m1 where m10: "m1 \<le> length ?xs \<and>
    trace (snd (loop_x env self tt st y ?xs)) =
       trace st @ concat (map (\<lambda>x. tile_events self (y, x)) (take m1 ?xs)) \<and>
    (fst (loop_x env self tt st y ?xs) = None \<longrightarrow> m1 = length ?xs)" ..
  have m1: "m1 \<le> length ?xs"
    "trace st1 = trace st @ concat (map (\<lambda>x. tile_events self (y, x)) (take m1 ?xs))"
    "o1 = None \<longrightarrow> m1 = length ?xs"
    using m10 unfolding b by simp_all
  have row: "concat (map (\<lambda>x. tile_events self (y, x)) (take m1 ?xs)) =
             concat (map (tile_events self) (take m1 ?row))"
    by (simp add: take_map comp_def)
  have tr1: "trace st1 = trace st @ concat (map (tile_events self) (take m1 ?row))"
    using m1(2) row by simp
  show ?case
  proof (cases o1)
    case (Some out)
    have "loop_y env self tt st (y # ys) = (Some out, st1)" using b Some by simp
    moreover have "take m1 (?row @ coords_of self ys) = take m1 ?row" using m1(1) by simp
    moreover have "m1 \<le> length (?row @ coords_of self ys)" using m1(1) by simp
    ultimately show ?thesis using tr1 unfolding split
      by (intro exI[of _ m1]) (simp del: take_append)
  next
    case None
    then have full: "m1 = length ?xs" using m1 by simp
    from Cons.IH[of st1] obtain m2 where m20: "m2 \<le> length (coords_of self ys) \<and>
      trace (snd (loop_y env self tt st1 ys)) =
             trace st1 @ concat (map (tile_events self) (take m2 (coords_of self ys))) \<and>
      (fst (loop_y env self tt st1 ys) = None \<longrightarrow> m2 = length (coords_of self ys))" ..
    note m2 = conjunct1[OF m20] conjunct1[OF conjunct2[OF m20]] conjunct2[OF conjunct2[OF m20]]
    have l: "loop_y env self tt st (y # ys) = loop_y env self tt st1 ys" using b None by simp
    have t: "take (length ?row + m2) (?row @ coords_of self ys) = ?row @ take m2 (coords_of self ys)"
      by simp
    have r: "take m1 ?row = ?row" using full by simp
    have "trace (snd (loop_y env self tt st (y # ys))) =
          trace st @ concat (map (tile_events self) (take (length ?row + m2) (?row @ coords_of self ys)))"
      unfolding l t m2(2) tr1 r by simp
    moreover have "length ?row + m2 \<le> length (?row @ coords_of self ys)" using m2(1) by simp
    moreover have "fst (loop_y env self tt st (y # ys)) = None \<longrightarrow>
                   length ?row + m2 = length (?row @ coords_of self ys)"
      unfolding l using m2(3) by simp
    ultimately show ?thesis unfolding split
      by (intro exI[of _ "length ?row + m2"]) blast
  qed
qed


lemma tile_body_not_True: "fst (tile_body env self tt st y x) \<noteq> Some (Returned True)"
proof (cases "isCanceled env (cancel_checks st)")
  case True
  then show ?thesis by (simp add: tile_body_def Let_def)
next
  case False
  then show ?thesis
    by (simp add: tile_body_def Let_def split: sum.split prod.split option.split)
qed

lemma loop_x_not_True: "fst (loop_x env self tt st y xs) \<noteq> Some (Returned True)"
proof (induction xs arbitrary: st)
  case Nil
  then show ?case by simp
next
  case (Cons x xs)
  obtain o1 st1 where b: "tile_body env self tt st y x = (o1, st1)"
    by (cases "tile_body env self tt st y x")
  have "o1 \<noteq> Some (Returned True)" using tile_body_not_True[of env self tt st y x] b by simp
  then show ?case using b Cons.IH[of st1] by (cases o1) simp_all
qed

lemma loop_y_not_True: "fst (loop_y env self tt st ys) \<noteq> Some (Returned True)"
proof (induction ys arbitrary: st)
  case Nil
  then show ?case by simp
next
  case (Cons y ys)
  obtain o1 st1 where b: "loop_x env self tt st y (py_range (mp_x_bins_number self)) = (o1, st1)"
    by (cases "loop_x env self tt st y (py_range (mp_x_bins_number self))")
  have "o1 \<noteq> Some (Returned True)"
    using loop_x_not_True[of env self tt st y "py_range (mp_x_bins_number self)"] b by simp
  then show ?case using b Cons.IH[of st1] by (cases o1) simp_all
qed

lemma process_trace:
  "\<exists>m\<le>length (tile_coords self).
      fst (snd (process env self)) = concat (map (tile_events self) (take m (tile_coords self))) \<and>
      (fst (process env self) = Returned True \<longrightarrow> m = length (tile_coords self)) \<and>
      (m = 0 \<or> 1 \<le> mp_x_bins_number self * mp_y_bins_number self)"
proof (cases "np_zeros (img_size_y_pixels self, img_size_x_pixels self)")
  case (Inl e)
  then show ?thesis by (intro exI[of _ 0]) (simp add: process_def)
next
  case (Inr img)
  show ?thesis
  proof (cases "mp_x_bins_number self * mp_y_bins_number self < 1")
    case True
    then show ?thesis using Inr by (intro exI[of _ 0]) (simp add: process_def)
  next
    case False
    define tt where "tt = mp_x_bins_number self * mp_y_bins_number self"
    define st0 where "st0 = \<lparr> full_result_img = img, trace = [], cancel_checks = 0 \<rparr>"
    obtain o1 st1 where b: "loop_y env self tt st0 (py_range (mp_y_bins_number self)) = (o1, st1)"
      by (cases "loop_y env self tt st0 (py_range (mp_y_bins_number self))")
    from loop_y_trace[OF tt_def, of "py_range (mp_y_bins_number self)" env st0]
    obtain m where m0: "m \<le> length (coords_of self (py_range (mp_y_bins_number self))) \<and>
       trace (snd (loop_y env self tt st0 (py_range (mp_y_bins_number self)))) =
         trace st0 @ concat (map (tile_events self)
            (take m (coords_of self (py_range (mp_y_bins_number self))))) \<and>
       (fst (loop_y env self tt st0 (py_range (mp_y_bins_number self))) = None \<longrightarrow>
          m = length (coords_of self (py_range (mp_y_bins_number self))))" ..
    have m: "m \<le> length (tile_coords self)"
      "trace st1 = concat (map (tile_events self) (take m (tile_coords self)))"
      "o1 = None \<longrightarrow> m = length (tile_coords self)"
      using m0 unfolding b by (simp_all add: tile_coords_def st0_def)
    have nT: "o1 \<noteq> Some (Returned True)"
      using loop_y_not_True[of env self tt st0 "py_range (mp_y_bins_number self)"] b by simp
    have tr: "fst (snd (process env self)) = trace st1"
      using Inr False b
      by (simp add: process_def Let_def tt_def[symmetric] st0_def[symmetric]
          split: option.split)
    have fin: "fst (process env self) = Returned True \<longrightarrow> o1 = None"
      using Inr False b nT
      by (auto simp add: process_def Let_def tt_def[symmetric] st0_def[symmetric]
          split: option.split)
    show ?thesis using m tr fin False by (intro exI[of _ m]) auto
  qed
qed


lemma reported_tile_events:
  "reported (concat (map (tile_events self) tiles)) =
   map (\<lambda>yx. of_int (tile_no self yx) / of_int (mp_x_bins_number self * mp_y_bins_number self) * 100)
       tiles"
  by (induction tiles) (simp_all add: tile_events_def tile_no_def)

lemma map_add_upto: "map (\<lambda>x. c + x) [0 .. int n - 1] = [c .. c + int n - 1]"
proof (induction n)
  case 0
  then show ?case by simp
next
  case (Suc n)
  have a: "[0 .. int (Suc n) - 1] = [0 .. int n - 1] @ [int n]"
    using upto_rec2[of 0 "int n"] by simp
  have b: "[c .. c + int (Suc n) - 1] = [c .. c + int n - 1] @ [c + int n]"
    using upto_rec2[of c "c + int n"] by simp
  show ?case unfolding a b using Suc.IH by simp
qed

lemma row_tile_no:
  assumes "0 \<le> nx" "mp_x_bins_number self = nx"
  shows "map (tile_no self) (map (\<lambda>x. (y, x)) (py_range nx)) = [y * nx .. y * nx + nx - 1]"
proof -
  obtain n where n: "nx = int n" using assms(1) nonneg_int_cases by blast
  have "map (tile_no self) (map (\<lambda>x. (y, x)) (py_range nx)) = map (\<lambda>x. y * nx + x) [0 .. int n - 1]"
    using assms(2) by (simp add: tile_no_def py_range_def n comp_def)
  also have "\<dots> = [y * nx .. y * nx + int n - 1]" by (rule map_add_upto)
  finally show ?thesis using n by simp
qed

lemma coords_tile_no:
  assumes "0 \<le> mp_x_bins_number self"
  shows "map (tile_no self) (coords_of self [0 .. int k - 1]) = [0 .. int k * mp_x_bins_number self - 1]"
proof (induction k)
  case 0
  then show ?case by (simp add: coords_of_def)
next
  case (Suc k)
  let ?nx = "mp_x_bins_number self"
  have a: "[0 .. int (Suc k) - 1] = [0 .. int k - 1] @ [int k]"
    using upto_rec2[of 0 "int k"] by simp
  have c: "coords_of self ([0 .. int k - 1] @ [int k]) =
           coords_of self [0 .. int k - 1] @ map (\<lambda>x. (int k, x)) (py_range ?nx)"
    by (simp add: coords_of_def)
  have r: "map (tile_no self) (map (\<lambda>x. (int k, x)) (py_range ?nx)) =
           [int k * ?nx .. int k * ?nx + ?nx - 1]"
    using row_tile_no[OF assms refl] .
  have k0: "0 \<le> int k * ?nx" using assms by simp
  have s: "[0 .. int k * ?nx + ?nx - 1] = [0 .. int k * ?nx - 1] @ [int k * ?nx .. int k * ?nx + ?nx - 1]"
  proof (cases "?nx = 0")
    case True
    then show ?thesis by simp
  next
    case False
    then have "int k * ?nx \<le> int k * ?nx + ?nx - 1" using assms by simp
    then show ?thesis using upto_split1[of 0 "int k * ?nx" "int k * ?nx + ?nx - 1"] k0 by simp
  qed
  have e: "int (Suc k) * ?nx - 1 = int k * ?nx + ?nx - 1" by (simp add: algebra_simps)
  show ?case unfolding a c e s using Suc.IH r by simp
qed

lemma tile_coords_tile_no:
  "map (tile_no self) (tile_coords self) =
     (if 0 \<le> mp_x_bins_number self \<and> 0 \<le> mp_y_bins_number self
      then [0 .. mp_y_bins_number self * mp_x_bins_number self - 1] else [])"
proof (cases "0 \<le> mp_y_bins_number self")
  case ny: True
  then obtain k where k: "mp_y_bins_number self = int k" using nonneg_int_cases by blast
  show ?thesis
  proof (cases "0 \<le> mp_x_bins_number self")
    case True
    then show ?thesis using coords_tile_no[OF True, of k] ny
      by (simp add: tile_coords_def py_range_def k)
  next
    case False
    then show ?thesis by (simp add: tile_coords_def coords_of_def py_range_def)
  qed
next
  case False
  then show ?thesis by (simp add: tile_coords_def coords_of_def py_range_def)
qed

lemma take_upto: "take m [0 .. j] = [0 .. min (int m - 1) j]"
proof (induction m)
  case 0
  then show ?case by simp
next
  case (Suc m)
  show ?case
  proof (cases "int m \<le> j")
    case True
    have "take (Suc m) [0 .. j] = take m [0 .. j] @ [[0 .. j] ! m]"
      using True by (simp add: take_Suc_conv_app_nth)
    also have "[0 .. j] ! m = int m" using True by simp
    also have "take m [0 .. j] = [0 .. int m - 1]" using Suc.IH True by (simp add: min_def)
    also have "[0 .. int m - 1] @ [int m] = [0 .. int m]" using upto_rec2[of 0 "int m"] by simp
    finally show ?thesis using True by (simp add: min_def)
  next
    case False
    then have "length [0 .. j] \<le> m" by simp
    then have "take (Suc m) [0 .. j] = [0 .. j]" "take m [0 .. j] = [0 .. j]" by simp_all
    then show ?thesis using False by (simp add: min_def)
  qed
qed

lemma take_tile_no:
  assumes "m \<le> length (tile_coords self)"
  shows "map (tile_no self) (take m (tile_coords self)) = [0 .. int m - 1]"
proof -
  have "map (tile_no self) (take m (tile_coords self)) = take m (map (tile_no self) (tile_coords self))"
    by (simp add: take_map)
  also have "\<dots> = [0 .. int m - 1]"
  proof (cases "0 \<le> mp_x_bins_number self \<and> 0 \<le> mp_y_bins_number self")
    case True
    have "length (map (tile_no self) (tile_coords self)) =
          length [0 .. mp_y_bins_number self * mp_x_bins_number self - 1]"
      using True by (simp add: tile_coords_tile_no)
    moreover have "0 \<le> mp_y_bins_number self * mp_x_bins_number self" using True by simp
    ultimately have "int m - 1 \<le> mp_y_bins_number self * mp_x_bins_number self - 1"
      using assms by simp
    then show ?thesis using True by (simp add: tile_coords_tile_no take_upto min_def)
  next
    case False
    then have "map (tile_no self) (tile_coords self) = []" by (auto simp add: tile_coords_tile_no)
    then have "m = 0" using assms by simp
    then show ?thesis by simp
  qed
  finally show ?thesis .
qed

lemma sorted_progress:
  assumes "0 < tt"
  shows "sorted (map (\<lambda>k. of_int k / of_int tt * (100::real)) [0 .. j])"
proof -
  have "sorted_wrt (\<lambda>a b. of_int a / of_int tt * (100::real) \<le> of_int b / of_int tt * 100) [0 .. j]"
  proof (rule sorted_wrt_mono_rel[of _ "(\<le>)"])
    fix a b :: int
    assume "a \<le> b"
    then show "of_int a / of_int tt * (100::real) \<le> of_int b / of_int tt * 100"
      using assms by (simp add: divide_right_mono)
  next
    show "sorted_wrt (\<le>) [0 .. j]" using sorted_upto by simp
  qed
  then show ?thesis by (simp add: sorted_map)
qed


text \<open>
  Claim C6, as amended. In every run of \<open>_process\<close> (complete, cancelled or ended by an
  exception) the calls made are, for the first \<open>m\<close> tiles in loop order, the call
  \<open>setProgress(tile_no / total_tiles * 100)\<close> followed by the read of that tile's image:
  progress is reported before each tile is processed, with \<open>tile_no\<close> the number of tiles
  done so far. The values reported are \<open>k / total_tiles * 100\<close> for \<open>k = 0, \<dots>, m - 1\<close>, a
  non-decreasing sequence, and a run that returns \<open>True\<close> has reported for every tile.
\<close>

theorem progress_reports:
  "\<exists>m\<le>length (tile_coords self).
      fst (snd (process env self)) = concat (map (tile_events self) (take m (tile_coords self))) \<and>
      reported (fst (snd (process env self))) =
        map (\<lambda>k. of_int k / of_int (mp_x_bins_number self * mp_y_bins_number self) * 100)
            [0 .. int m - 1] \<and>
      sorted (reported (fst (snd (process env self)))) \<and>
      (fst (process env self) = Returned True \<longrightarrow> m = length (tile_coords self))"
proof -
  let ?tt = "mp_x_bins_number self * mp_y_bins_number self"
  let ?f = "\<lambda>k. of_int k / of_int ?tt * (100::real)"
  from process_trace[of self env] obtain m where m0: "m \<le> length (tile_coords self) \<and>
      fst (snd (process env self)) = concat (map (tile_events self) (take m (tile_coords self))) \<and>
      (fst (process env self) = Returned True \<longrightarrow> m = length (tile_coords self)) \<and>
      (m = 0 \<or> 1 \<le> ?tt)" ..
  then have m: "m \<le> length (tile_coords self)"
    and tr: "fst (snd (process env self)) = concat (map (tile_events self) (take m (tile_coords self)))"
    and all: "fst (process env self) = Returned True \<longrightarrow> m = length (tile_coords self)"
    and tt: "m = 0 \<or> 1 \<le> ?tt" by simp_all
  have "reported (fst (snd (process env self))) =
        map (\<lambda>yx. ?f (tile_no self yx)) (take m (tile_coords self))"
    unfolding tr by (rule reported_tile_events)
  also have "\<dots> = map ?f (map (tile_no self) (take m (tile_coords self)))" by (simp add: comp_def)
  also have "\<dots> = map ?f [0 .. int m - 1]" by (simp only: take_tile_no[OF m])
  finally have rep: "reported (fst (snd (process env self))) = map ?f [0 .. int m - 1]" .
  have "sorted (map ?f [0 .. int m - 1])"
  proof (cases "m = 0")
    case True
    then show ?thesis by simp
  next
    case False
    then have "0 < ?tt" using tt by simp
    then show ?thesis by (rule sorted_progress)
  qed
  then have srt: "sorted (reported (fst (snd (process env self))))" by (simp only: rep)
  show ?thesis using m tr rep srt all by (intro exI[of _ m]) blast
qed

theorem progress_reports_witness:
  "fst (process (const_env 5 () (square 2 255)) (small_processor 2 1)) = Returned True \<and>
   reported (fst (snd (process (const_env 5 () (square 2 255)) (small_processor 2 1)))) = [0, 50] \<and>
   sorted (reported (fst (snd (process (const_env 5 () (square 2 255)) (small_processor 2 1)))))"
proof -
  let ?env = "const_env 5 () (square 2 255)"
  let ?mp = "small_processor 2 1"
  have ret: "fst (process ?env ?mp) = Returned True" by code_simp
  have len: "length (tile_coords ?mp) = 2" by code_simp
  have tt: "mp_x_bins_number ?mp * mp_y_bins_number ?mp = 2" by code_simp
  from progress_reports[of ?mp ?env] obtain m where m0: "m \<le> length (tile_coords ?mp) \<and>
      fst (snd (process ?env ?mp)) = concat (map (tile_events ?mp) (take m (tile_coords ?mp))) \<and>
      reported (fst (snd (process ?env ?mp))) =
        map (\<lambda>k. of_int k / of_int (mp_x_bins_number ?mp * mp_y_bins_number ?mp) * 100)
            [0 .. int m - 1] \<and>
      sorted (reported (fst (snd (process ?env ?mp)))) \<and>
      (fst (process ?env ?mp) = Returned True \<longrightarrow> m = length (tile_coords ?mp))" ..
  then have m: "m = 2" using ret len by simp
  have u: "[0 .. int 2 - 1] = [0, 1]" by code_simp
  note rep = conjunct1[OF conjunct2[OF conjunct2[OF m0]]]
  note srt = conjunct1[OF conjunct2[OF conjunct2[OF conjunct2[OF m0]]]]
  have "reported (fst (snd (process ?env ?mp))) = [0, 50]"
    unfolding rep m tt u by simp
  then show ?thesis using ret srt by simp
qed

text \<open>
  The claim as stated has the progress reported after each tile is processed. In a
  complete run over a grid of one tile the only report, of 0, precedes the read of the
  tile's image, and no report follows the tile.
\<close>

theorem progress_before_tile_only:
  "fst (process (const_env 5 () (square 2 255)) (small_processor 1 1)) = Returned True \<and>
   fst (snd (process (const_env 5 () (square 2 255)) (small_processor 1 1))) =
     [SetProgress 0, GetImage \<lparr> xMinimum = 0, yMinimum = 0, xMaximum = 2, yMaximum = 2 \<rparr>] \<and>
   \<not> progress_after_each_tile
        (fst (snd (process (const_env 5 () (square 2 255)) (small_processor 1 1))))"
  by code_simp

subsection \<open>Tile counts and the guard of the stitching loop\<close>











subsection \<open>The copy of a mask of the wrong shape\<close>
















subsection \<open>Contours to features\<close>

lemma py_getitem_inside: "0 \<le> i \<Longrightarrow> i < int (length xs) \<Longrightarrow> py_getitem xs i = Inr (xs ! nat i)"
  by (simp add: py_getitem_def)

lemma loop_tail:
  "(if nxt = - 1 then Some (Inr st) else convert_loop fuel cv h nxt b st) =
   convert_cv_contours_to_features fuel cv h nxt b st"
  by simp

lemma convert_step:
  assumes i: "0 \<le> i" "i < int (length cv)" "i < int (length h)"
  shows "convert_cv_contours_to_features (Suc fuel) cv h i b (fs, hs) =
    (if 3 \<le> length (cv ! nat i)
     then (case convert_cv_contours_to_features fuel cv h (h_first_child (h ! nat i)) (\<not> b) (fs, []) of
             None \<Rightarrow> None
           | Some (Inl e) \<Rightarrow> Some (Inl e)
           | Some (Inr (fs', internal_holes)) \<Rightarrow>
               convert_cv_contours_to_features fuel cv h (h_next (h ! nat i)) b
                 (if b then (fs', hs @ [cv ! nat i])
                  else (fs' @ [cv ! nat i # internal_holes], hs)))
     else convert_cv_contours_to_features fuel cv h (h_next (h ! nat i)) b (fs, hs))"
proof -
  have ne: "i \<noteq> - 1" using i by simp
  show ?thesis
    using ne
    by (simp add: py_getitem_inside[OF i(1,2)] py_getitem_inside[OF i(1,3)]
        del: convert_cv_contours_to_features.simps
        add: convert_cv_contours_to_features.simps[of "Suc fuel"] loop_tail
        split: option.split sum.split prod.split)
qed


lemma encodes_Nil_iff: "encodes cv h i [] \<longleftrightarrow> i = - 1"
  by simp

lemma convert_forest:
  assumes "encodes cv h i forest"
  shows "\<exists>f0. \<forall>fuel\<ge>f0.
           convert_cv_contours_to_features fuel cv h i b (fs, hs) =
             Some (Inr (fs @ map (\<lambda>ht. polygon_of (snd ht)) (filter (\<lambda>ht. \<not> fst ht) (reached b forest)),
                        hs @ (if b then filter (\<lambda>r. 3 \<le> length r) (map ring forest) else [])))"
  using assms
proof (induction b forest arbitrary: i fs hs rule: reached.induct)
  case (1 is_hole)
  then show ?case by simp
next
  case (2 is_hole c kids rest)
  let ?feats = "\<lambda>b forest. map (\<lambda>ht. polygon_of (snd ht)) (filter (\<lambda>ht. \<not> fst ht) (reached b forest))"
  let ?rings = "\<lambda>forest. filter (\<lambda>r. 3 \<le> length r) (map ring forest)"
  from "2.prems" have i: "0 \<le> i" "i < int (length cv)" "i < int (length h)"
    and c: "cv ! nat i = c"
    and ek: "encodes cv h (h_first_child (h ! nat i)) kids"
    and er: "encodes cv h (h_next (h ! nat i)) rest"
    by simp_all
  show ?case
  proof (cases "3 \<le> length c")
    case True
    define fs1 where "fs1 = fs @ ?feats (\<not> is_hole) kids"
    define st1 where "st1 = (if is_hole then (fs1, hs @ [c])
                             else (fs1 @ [c # ?rings kids], hs))"
    from "2.IH"(1)[OF True ek, of fs "[]"] obtain f1 where
      f1: "\<forall>fuel\<ge>f1. convert_cv_contours_to_features fuel cv h (h_first_child (h ! nat i))
              (\<not> is_hole) (fs, []) =
            Some (Inr (fs1, (if \<not> is_hole then ?rings kids else [])))"
      unfolding fs1_def by auto
    from "2.IH"(2)[OF er, of "fst st1" "snd st1"] obtain f2 where
      f2: "\<forall>fuel\<ge>f2. convert_cv_contours_to_features fuel cv h (h_next (h ! nat i)) is_hole st1 =
            Some (Inr (fst st1 @ ?feats is_hole rest,
                       snd st1 @ (if is_hole then ?rings rest else [])))"
      by auto
    have "convert_cv_contours_to_features fuel cv h i is_hole (fs, hs) =
            Some (Inr (fs @ ?feats is_hole (Node c kids # rest),
                       hs @ (if is_hole then ?rings (Node c kids # rest) else [])))"
      if "Suc (max f1 f2) \<le> fuel" for fuel
    proof -
      from that obtain f where fuel: "fuel = Suc f" and ge: "f1 \<le> f" "f2 \<le> f"
        by (cases fuel) auto
      have child: "convert_cv_contours_to_features f cv h (h_first_child (h ! nat i))
              (\<not> is_hole) (fs, []) = Some (Inr (fs1, (if \<not> is_hole then ?rings kids else [])))"
        using f1 ge(1) by blast
      have sib: "convert_cv_contours_to_features f cv h (h_next (h ! nat i)) is_hole st1 =
            Some (Inr (fst st1 @ ?feats is_hole rest,
                       snd st1 @ (if is_hole then ?rings rest else [])))"
        using f2 ge(2) by blast
      have "convert_cv_contours_to_features fuel cv h i is_hole (fs, hs) =
            convert_cv_contours_to_features f cv h (h_next (h ! nat i)) is_hole st1"
        unfolding fuel convert_step[OF i] c using True child
        by (simp add: st1_def)
      also note sib
      finally show ?thesis using True by (simp add: st1_def fs1_def)
    qed
    then show ?thesis by blast
  next
    case False
    from "2.IH"(2)[OF er, of fs hs] obtain f2 where
      f2: "\<forall>fuel\<ge>f2. convert_cv_contours_to_features fuel cv h (h_next (h ! nat i)) is_hole (fs, hs) =
            Some (Inr (fs @ ?feats is_hole rest,
                       hs @ (if is_hole then ?rings rest else [])))"
      by auto
    have "convert_cv_contours_to_features fuel cv h i is_hole (fs, hs) =
            Some (Inr (fs @ ?feats is_hole (Node c kids # rest),
                       hs @ (if is_hole then ?rings (Node c kids # rest) else [])))"
      if "Suc f2 \<le> fuel" for fuel
    proof -
      from that obtain f where fuel: "fuel = Suc f" and ge: "f2 \<le> f" by (cases fuel) auto
      have "convert_cv_contours_to_features fuel cv h i is_hole (fs, hs) =
            convert_cv_contours_to_features f cv h (h_next (h ! nat i)) is_hole (fs, hs)"
        unfolding fuel convert_step[OF i] c using False by simp
      also have "\<dots> = Some (Inr (fs @ ?feats is_hole rest,
                       hs @ (if is_hole then ?rings rest else [])))"
        using f2 ge by blast
      finally show ?thesis using False by simp
    qed
    then show ?thesis by blast
  qed
qed


text \<open>
  Claim C3. For a contour list and a hierarchy that encode a forest (what \<open>findContours\<close>
  returns), the conversion started with \<open>is_hole = False\<close> returns, given enough fuel, and
  appends to \<open>features\<close> exactly the expected features of the forest: one polygon for each
  contour that is reached at even depth and has at least 3 points, with its immediate
  children of at least 3 points as hole rings; a contour of fewer than 3 points adds
  nothing, nor does anything below it. \<open>current_holes\<close> is left as it was.
\<close>

theorem contours_to_features:
  assumes "encodes cv_contours hierarchy i forest"
  shows "\<exists>fuel. convert_cv_contours_to_features fuel cv_contours hierarchy i False
                  (features, current_holes) =
                Some (Inr (features @ expected_features forest, current_holes))"
proof -
  from convert_forest[OF assms, of False features current_holes] obtain f0 where
    "\<forall>fuel\<ge>f0. convert_cv_contours_to_features fuel cv_contours hierarchy i False
                  (features, current_holes) =
                Some (Inr (features @ expected_features forest, current_holes))"
    unfolding expected_features_def by auto
  then show ?thesis by blast
qed

text \<open>
  In particular, a filled square with a smaller square hole: two contours, the hole's
  the first child of the square's. The result is one feature with one hole ring.
\<close>

theorem contours_to_features_witness:
  "encodes [[(0::int, 0::int), (9, 0), (9, 9), (0, 9)], [(3, 3), (3, 6), (6, 6), (6, 3)]]
      [\<lparr> h_next = - 1, h_previous = - 1, h_first_child = 1, h_parent = - 1 \<rparr>,
       \<lparr> h_next = - 1, h_previous = - 1, h_first_child = - 1, h_parent = 0 \<rparr>]
      0 [Node [(0, 0), (9, 0), (9, 9), (0, 9)] [Node [(3, 3), (3, 6), (6, 6), (6, 3)] []]] \<and>
   (\<exists>fuel. convert_cv_contours_to_features fuel
      [[(0::int, 0::int), (9, 0), (9, 9), (0, 9)], [(3, 3), (3, 6), (6, 6), (6, 3)]]
      [\<lparr> h_next = - 1, h_previous = - 1, h_first_child = 1, h_parent = - 1 \<rparr>,
       \<lparr> h_next = - 1, h_previous = - 1, h_first_child = - 1, h_parent = 0 \<rparr>]
      0 False ([], []) =
    Some (Inr ([[[(0, 0), (9, 0), (9, 9), (0, 9)], [(3, 3), (3, 6), (6, 6), (6, 3)]]], [])))"
proof -
  let ?cv = "[[(0::int, 0::int), (9, 0), (9, 9), (0, 9)], [(3, 3), (3, 6), (6, 6), (6, 3)]]"
  let ?h = "[\<lparr> h_next = - 1, h_previous = - 1, h_first_child = 1, h_parent = - 1 \<rparr>,
             \<lparr> h_next = - 1, h_previous = - 1, h_first_child = - 1, h_parent = 0 \<rparr>]"
  let ?forest = "[Node [(0::int, 0::int), (9, 0), (9, 9), (0, 9)] [Node [(3, 3), (3, 6), (6, 6), (6, 3)] []]]"
  have e: "encodes ?cv ?h 0 ?forest" by simp
  have x: "expected_features ?forest =
             [[[(0, 0), (9, 0), (9, 9), (0, 9)], [(3, 3), (3, 6), (6, 6), (6, 3)]]]"
    by (simp add: expected_features_def)
  show ?thesis
    using e contours_to_features[OF e, of "[]" "[]"] unfolding x by simp
qed

subsection \<open>The per-tile predictor\<close>

lemma threshold_pixel:
  fixes p :: "8 word list"
  assumes "0 < length p"
  shows "(let q = (if p ! 0 < 255 then p [0 := 0] else p)
          in (if 255 \<le> q ! 0 then q [0 := 255] else q)) ! 0 =
         (if p ! 0 < 255 then 0 else 255)"
  using assms by (auto simp add: Let_def)

lemma threshold_rows:
  fixes rows :: "8 word list list list"
  assumes "list_all (list_all (\<lambda>p. length p = c)) rows" "0 < c"
  shows "map (map (\<lambda>p. p ! 0))
           (map (map (\<lambda>p. if 255 \<le> p ! 0 then p [0 := 255] else p))
              (map (map (\<lambda>p. if p ! 0 < 255 then p [0 := 0] else p)) rows)) =
         map (map (\<lambda>p. if p ! 0 < 255 then 0 else 255)) rows"
proof -
  have px: "(if 255 \<le> (if p ! 0 < 255 then p [0 := 0] else p) ! 0
             then (if p ! 0 < 255 then p [0 := 0] else p) [0 := 255]
             else (if p ! 0 < 255 then p [0 := 0] else p)) ! 0 =
            (if p ! 0 < 255 then 0 else 255)" if "length p = c" for p :: "8 word list"
    using threshold_pixel[of p] that assms(2) by (simp add: Let_def)
  show ?thesis
    using assms(1)
    by (auto simp add: list_all_iff px)
qed

lemma process_tile_run:
  assumes a: "a < length st" and ch: "0 < dim_c (st ! a)"
  shows "process_tile_body model_process st \<lparr> buf_addr = a, chan = None \<rparr> =
    Return \<lparr> buf_addr = length st, chan = Some 0 \<rparr>
      \<lparr> store_of = st @ [(st ! a) \<lparr> px3 :=
            map (map (\<lambda>p. if 255 \<le> p ! 0 then p [0 := 255] else p))
              (map (map (\<lambda>p. if p ! 0 < 255 then p [0 := 0] else p)) (px3 (st ! a))) \<rparr>],
        v_tile_img = \<lparr> buf_addr = length st, chan = Some 0 \<rparr>,
        v_result = Some \<lparr> buf_addr = length st, chan = Some 0 \<rparr>,
        executed = [533, 534, 535, 536, 537, 538] \<rparr>"
  using ch
  by (simp add: process_tile_body_def stmt_def return_result_def copy_copy_def
      getitem_channel_def setitem_where_def Let_def)


lemma process_tile_flow:
  "(\<exists>fr. process_tile_body model_process st r = Raise IndexError fr \<and>
         executed fr = [533, 534] \<and> length st < length (store_of fr) \<and>
         take (length st) (store_of fr) = st) \<or>
   (\<exists>res fr. process_tile_body model_process st r = Return res fr \<and>
         executed fr = [533, 534, 535, 536, 537, 538] \<and> length st < length (store_of fr) \<and>
         take (length st) (store_of fr) = st)"
proof (cases "chan r")
  case None
  show ?thesis
  proof (cases "0 < dim_c (st ! buf_addr r)")
    case True
    then show ?thesis using None
      by (simp add: process_tile_body_def stmt_def return_result_def copy_copy_def
          getitem_channel_def setitem_where_def Let_def)
  next
    case False
    then show ?thesis using None
      by (simp add: process_tile_body_def stmt_def return_result_def copy_copy_def
          getitem_channel_def setitem_where_def Let_def)
  qed
next
  case (Some k)
  then show ?thesis
    by (simp add: process_tile_body_def stmt_def return_result_def copy_copy_def
        getitem_channel_def setitem_where_def Let_def)
qed

lemma process_tile_ignores_model:
  "process_tile_body model_process st r = process_tile_body model_process' st r"
proof (cases "chan r")
  case None
  show ?thesis
  proof (cases "0 < dim_c (st ! buf_addr r)")
    case True
    then show ?thesis using None
      by (simp add: process_tile_body_def stmt_def return_result_def copy_copy_def
          getitem_channel_def setitem_where_def Let_def)
  next
    case False
    then show ?thesis using None
      by (simp add: process_tile_body_def stmt_def return_result_def copy_copy_def
          getitem_channel_def setitem_where_def Let_def)
  qed
next
  case (Some k)
  then show ?thesis
    by (simp add: process_tile_body_def stmt_def return_result_def copy_copy_def
        getitem_channel_def setitem_where_def Let_def)
qed

text \<open>
  Claim C4. \<open>_process_tile\<close> never uses the model: its outcome is the same for every
  \<open>model_process\<close>, and line 540, which calls it, is not among the statements executed,
  whatever the input. For an image with at least one channel the call returns at line
  538, and the array returned is the first channel with every pixel below 255 set to 0
  and every pixel of 255 (or more) set to 255.
\<close>

theorem process_tile_is_red_threshold:
  assumes "a < length st" and "0 < dim_c (st ! a)" and "pixels_ok (st ! a)"
  shows "(\<exists>fr. process_tile_body model_process st \<lparr> buf_addr = a, chan = None \<rparr> =
                 Return \<lparr> buf_addr = length st, chan = Some 0 \<rparr> fr \<and>
               executed fr = [533, 534, 535, 536, 537, 538] \<and>
               read_view (store_of fr) (length st) 0 =
                 \<lparr> n_rows = dim_y (st ! a), n_cols = dim_x (st ! a),
                   rows2 = map (map (\<lambda>p. if p ! 0 < 255 then 0 else 255)) (px3 (st ! a)) \<rparr>) \<and>
         540 \<notin> set (executed (frame_of (process_tile_body model_process st' r))) \<and>
         process_tile_body model_process st' r = process_tile_body model_process' st' r"
proof (intro conjI)
  have rows: "map (map (\<lambda>p. p ! 0))
           (map (map (\<lambda>p. if 255 \<le> p ! 0 then p [0 := 255] else p))
              (map (map (\<lambda>p. if p ! 0 < 255 then p [0 := 0] else p)) (px3 (st ! a)))) =
         map (map (\<lambda>p. if p ! 0 < 255 then 0 else 255)) (px3 (st ! a))"
    using assms(2,3) unfolding pixels_ok_def by (rule threshold_rows[rotated])
  show "\<exists>fr. process_tile_body model_process st \<lparr> buf_addr = a, chan = None \<rparr> =
                 Return \<lparr> buf_addr = length st, chan = Some 0 \<rparr> fr \<and>
               executed fr = [533, 534, 535, 536, 537, 538] \<and>
               read_view (store_of fr) (length st) 0 =
                 \<lparr> n_rows = dim_y (st ! a), n_cols = dim_x (st ! a),
                   rows2 = map (map (\<lambda>p. if p ! 0 < 255 then 0 else 255)) (px3 (st ! a)) \<rparr>"
    unfolding process_tile_run[OF assms(1,2)]
    using rows by (simp add: read_view_def)
next
  show "540 \<notin> set (executed (frame_of (process_tile_body model_process st' r)))"
    using process_tile_flow[of model_process st' r] by auto
next
  show "process_tile_body model_process st' r = process_tile_body model_process' st' r"
    by (rule process_tile_ignores_model)
qed


theorem process_tile_is_red_threshold_witness:
  "\<exists>fr. process_tile_body failing_model [example_tile] \<lparr> buf_addr = 0, chan = None \<rparr> =
           Return \<lparr> buf_addr = 1, chan = Some 0 \<rparr> fr \<and>
         read_view (store_of fr) 1 0 = \<lparr> n_rows = 1, n_cols = 3, rows2 = [[255, 0, 0]] \<rparr>"
proof -
  have h: "0 < length [example_tile]" "0 < dim_c ([example_tile] ! 0)"
    "pixels_ok ([example_tile] ! 0)"
    by (simp_all add: example_tile_def pixels_ok_def)
  from process_tile_is_red_threshold[OF h, of failing_model]
  obtain fr where fr: "process_tile_body failing_model [example_tile] \<lparr> buf_addr = 0, chan = None \<rparr> =
                 Return \<lparr> buf_addr = length [example_tile], chan = Some 0 \<rparr> fr"
     "read_view (store_of fr) (length [example_tile]) 0 =
                 \<lparr> n_rows = dim_y ([example_tile] ! 0), n_cols = dim_x ([example_tile] ! 0),
                   rows2 = map (map (\<lambda>p. if p ! 0 < 255 then 0 else 255)) (px3 ([example_tile] ! 0)) \<rparr>"
    by blast
  have "read_view (store_of fr) 1 0 = \<lparr> n_rows = 1, n_cols = 3, rows2 = [[255, 0, 0]] \<rparr>"
    using fr(2) by (simp add: example_tile_def)
  then show ?thesis using fr(1) by simp
qed

text \<open>
  Claim C10. \<open>_process_tile\<close> does not mutate its input: after the call, however it ends,
  the buffer of the array passed in, and every other buffer the store held before the
  call, is as it was; the thresholding writes to the copy made at line 533, at a fresh
  address.
\<close>

theorem process_tile_keeps_input:
  assumes "buf_addr tile_img < length st"
  shows "store_of (frame_of (process_tile_body model_process st tile_img)) ! buf_addr tile_img =
           st ! buf_addr tile_img \<and>
         take (length st) (store_of (frame_of (process_tile_body model_process st tile_img))) = st"
proof -
  let ?st' = "store_of (frame_of (process_tile_body model_process st tile_img))"
  have t: "take (length st) ?st' = st"
    using process_tile_flow[of model_process st tile_img] by auto
  have "?st' ! buf_addr tile_img = take (length st) ?st' ! buf_addr tile_img"
    using assms by simp
  then show ?thesis using t by simp
qed

theorem process_tile_keeps_input_witness:
  "store_of (frame_of (process_tile_body failing_model [example_tile]
      \<lparr> buf_addr = 0, chan = None \<rparr>)) ! 0 = example_tile \<and>
   store_of (frame_of (process_tile_body failing_model [example_tile]
      \<lparr> buf_addr = 0, chan = None \<rparr>)) ! 1 =
     \<lparr> dim_y = 1, dim_x = 3, dim_c = 2, px3 = [[[255, 7], [0, 8], [0, 255]]] \<rparr>"
proof -
  have h: "buf_addr \<lparr> buf_addr = 0, chan = None \<rparr> < length [example_tile]" by simp
  have a: "store_of (frame_of (process_tile_body failing_model [example_tile]
      \<lparr> buf_addr = 0, chan = None \<rparr>)) ! 0 = example_tile"
    using process_tile_keeps_input[OF h, of failing_model] by simp
  have b: "store_of (frame_of (process_tile_body failing_model [example_tile]
      \<lparr> buf_addr = 0, chan = None \<rparr>)) ! 1 =
     \<lparr> dim_y = 1, dim_x = 3, dim_c = 2, px3 = [[[255, 7], [0, 8], [0, 255]]] \<rparr>"
    by code_simp
  show ?thesis using a b by simp
qed

text \<open>
  The store does tell a write through a view from a write to a copy: the same assignment
  made through a view of the caller's own buffer changes that buffer.
\<close>

lemma setitem_where_writes_through_view:
  "setitem_where (\<lambda>e. e < 255) 0 [example_tile] \<lparr> buf_addr = 0, chan = Some 0 \<rparr> =
     [\<lparr> dim_y = 1, dim_x = 3, dim_c = 2, px3 = [[[255, 7], [0, 8], [0, 255]]] \<rparr>]"
  by code_simp

end
